theory Spec2Isabelle
  imports Complex_Main
begin

section \<open>Number extraction (functions.improved.cjs, extractNumberFromString)\<close>

text \<open>
  JavaScript strings are modelled as \<open>string\<close> (character lists over single-byte
  characters). A number is \<open>Num q\<close> for the finite value \<open>q\<close>, \<open>NaN\<close> for JavaScript's
  not-a-number value, which the callers of \<open>extractNumberFromString\<close> test with \<open>isNaN\<close>
  to recognise a failed extraction, or \<open>Infty True\<close> and \<open>Infty False\<close> for plus and minus
  infinity. The sign of zero is not part of the model.
\<close>

datatype jsnum = NaN | Num rat | Infty bool

definition is_digit :: "char \<Rightarrow> bool" where
  "is_digit c = (c \<in> set ''0123456789'')"

text \<open>The characters matched by \<open>\s\<close> among the single-byte characters:
  tab, line feed, vertical tab, form feed, carriage return and space.\<close>

definition is_space :: "char \<Rightarrow> bool" where
  "is_space c = (c \<in> {CHR 0x09, CHR 0x0A, CHR 0x0B, CHR 0x0C, CHR 0x0D, CHR '' ''})"

text \<open>The value of a digit character is its position in \<open>0123456789\<close>.\<close>

definition digit_val :: "char \<Rightarrow> nat" where
  "digit_val c = length (takeWhile (\<lambda>d. d \<noteq> c) ''0123456789'')"

definition nat_of_digits :: "string \<Rightarrow> nat" where
  "nat_of_digits ds = foldl (\<lambda>a c. 10 * a + digit_val c) 0 ds"

text \<open>\<open>String.prototype.trim\<close>.\<close>

definition js_trim :: "string \<Rightarrow> string" where
  "js_trim s = rev (dropWhile is_space (rev (dropWhile is_space s)))"

text \<open>\<open>s.replace(/\s+/g, ' ')\<close>: every maximal run of white space becomes one space.\<close>

fun collapse_ws :: "string \<Rightarrow> string" where
  "collapse_ws [] = []"
| "collapse_ws [c] = (if is_space c then '' '' else [c])"
| "collapse_ws (c # d # cs) =
     (if is_space c then (if is_space d then collapse_ws (d # cs) else CHR '' '' # collapse_ws (d # cs))
      else c # collapse_ws (d # cs))"

text \<open>\<open>s.replace(x, r)\<close> with a one-character string pattern \<open>x\<close>: only the first
  occurrence is replaced.\<close>

fun replace_first :: "char \<Rightarrow> string \<Rightarrow> string \<Rightarrow> string" where
  "replace_first x r [] = []"
| "replace_first x r (c # cs) = (if c = x then r @ cs else c # replace_first x r cs)"

text \<open>
  Rounding to the nearest binary64 number, ties to the even significand. The binade of a
  positive \<open>q\<close> is the \<open>b\<close> with \<open>2^b \<le> q < 2^(b+1)\<close>, found by halving or doubling; the
  significand has 53 bits, the least exponent of its last bit is \<open>-1074\<close>, and a result of
  \<open>2^1024\<close> or more is an infinity.
\<close>

function halvings :: "rat \<Rightarrow> nat" where
  "halvings q = (if 2 \<le> q then Suc (halvings (q / 2)) else 0)"
  by pat_completeness auto
termination
proof (relation "measure (\<lambda>q. nat \<lfloor>q\<rfloor>)")
  show "wf (measure (\<lambda>q::rat. nat \<lfloor>q\<rfloor>))" by simp
next
  fix q :: rat
  assume q: "2 \<le> q"
  then have "q / 2 \<le> q - 1" by simp
  then have "\<lfloor>q / 2\<rfloor> \<le> \<lfloor>q - 1\<rfloor>" by (rule floor_mono)
  moreover have "2 \<le> \<lfloor>q\<rfloor>" using q by (simp add: le_floor_iff)
  ultimately show "(q / 2, q) \<in> measure (\<lambda>q. nat \<lfloor>q\<rfloor>)" by simp
qed

function doublings :: "rat \<Rightarrow> nat" where
  "doublings q = (if 0 < q \<and> q < 1 then Suc (doublings (q * 2)) else 0)"
  by pat_completeness auto
termination
proof (relation "measure (\<lambda>q. nat \<lfloor>1 / q\<rfloor>)")
  show "wf (measure (\<lambda>q::rat. nat \<lfloor>1 / q\<rfloor>))" by simp
next
  fix q :: rat
  assume q: "0 < q \<and> q < 1"
  define x where "x = 1 / q"
  have x: "1 / (q * 2) = x / 2" by (simp add: x_def)
  have "1 < x" using q by (simp add: x_def)
  then have one: "1 \<le> \<lfloor>x\<rfloor>" by (simp add: le_floor_iff)
  have "\<lfloor>x / 2\<rfloor> < \<lfloor>x\<rfloor>"
  proof (cases "2 \<le> x")
    case True
    then have "x / 2 \<le> x - 1" by simp
    then have "\<lfloor>x / 2\<rfloor> \<le> \<lfloor>x - 1\<rfloor>" by (rule floor_mono)
    then show ?thesis by simp
  next
    case False
    then have "x / 2 < 1" by simp
    then have "\<lfloor>x / 2\<rfloor> < 1" by (simp only: floor_less_iff of_int_1)
    then show ?thesis using one by linarith
  qed
  then have "\<lfloor>1 / (q * 2)\<rfloor> < \<lfloor>1 / q\<rfloor>" and "1 \<le> \<lfloor>1 / q\<rfloor>"
    using one unfolding x by (simp_all only: x_def)
  then have "nat \<lfloor>1 / (q * 2)\<rfloor> < nat \<lfloor>1 / q\<rfloor>" by linarith
  then show "(q * 2, q) \<in> measure (\<lambda>q. nat \<lfloor>1 / q\<rfloor>)"
    by (simp only: in_measure)
qed

declare halvings.simps [simp del] doublings.simps [simp del]

definition binade :: "rat \<Rightarrow> int" where
  "binade q = (if 1 \<le> q then int (halvings q) else - int (doublings q))"

definition pow2 :: "int \<Rightarrow> rat" where
  "pow2 e = (if 0 \<le> e then 2 ^ nat e else 1 / 2 ^ nat (- e))"

definition round_half_even :: "rat \<Rightarrow> int" where
  "round_half_even x =
     (let n = \<lfloor>x\<rfloor>; r = x - of_int n
      in if r < 1 / 2 then n else if 1 / 2 < r then n + 1 else if even n then n else n + 1)"

definition to_double :: "rat \<Rightarrow> jsnum" where
  "to_double q =
     (if q = 0 then Num 0
      else
        let a = \<bar>q\<bar>;
            e = max (binade a - 52) (- 1074);
            r = of_int (round_half_even (a / pow2 e)) * pow2 e
        in if pow2 1024 \<le> r then Infty (0 < q) else Num (if 0 < q then r else - r))"

text \<open>
  \<open>parseFloat\<close> on the strings its callers pass here: a run of digits, optionally followed
  by a dot and a run of digits (no sign, no exponent, no leading white space). The longest
  such prefix is read and its decimal value rounded to a binary64 number; a string that
  starts with neither a digit nor a dot and a digit gives \<open>NaN\<close>.
\<close>

definition parseFloat :: "string \<Rightarrow> jsnum" where
  "parseFloat s =
     (let ip = takeWhile is_digit s;
          r = dropWhile is_digit s;
          fp = (case r of [] \<Rightarrow> [] | c # r' \<Rightarrow> if c = CHR ''.'' then takeWhile is_digit r' else [])
      in if ip = [] \<and> fp = [] then NaN
         else to_double (of_nat (nat_of_digits ip) + of_nat (nat_of_digits fp) / 10 ^ length fp))"

text \<open>
  \<open>cleaned.match(/(\d+[.,]?\d*)/)\<close>: the leftmost match starts at the first digit of the
  string; the greedy quantifiers take the whole digit run, a separator when one follows, and
  the digit run after it. Nothing after \<open>\d+\<close> is mandatory, so the matcher never
  backtracks. \<open>None\<close> is the \<open>null\<close> of a failed match.
\<close>

definition match_number :: "string \<Rightarrow> string option" where
  "match_number s =
     (let s1 = dropWhile (\<lambda>c. \<not> is_digit c) s
      in if s1 = [] then None
         else let d1 = takeWhile is_digit s1; r = dropWhile is_digit s1
              in (case r of
                    [] \<Rightarrow> Some d1
                  | c # r' \<Rightarrow>
                      if c = CHR ''.'' \<or> c = CHR '','' then Some (d1 @ [c] @ takeWhile is_digit r')
                      else Some d1))"

text \<open>\<open>/^\d{1,3}\.\d{3}$/.test(numStr)\<close>\<close>

definition test_thousands :: "string \<Rightarrow> bool" where
  "test_thousands s =
     (let a = takeWhile is_digit s; r = dropWhile is_digit s
      in 1 \<le> length a \<and> length a \<le> 3 \<and>
         (case r of [] \<Rightarrow> False
          | c # b \<Rightarrow> c = CHR ''.'' \<and> length b = 3 \<and> list_all is_digit b))"

text \<open>\<open>/\d\.\d{1,3}/.test(numStr)\<close>: not anchored, so any digit, dot, digit in a row
  matches.\<close>

fun test_digit_dot_digit :: "string \<Rightarrow> bool" where
  "test_digit_dot_digit (a # b # c # r) =
     ((is_digit a \<and> b = CHR ''.'' \<and> is_digit c) \<or> test_digit_dot_digit (b # c # r))"
| "test_digit_dot_digit _ = False"

text \<open>\<open>numStr.includes('.')\<close> and \<open>numStr.split('.')[1]\<close> (the piece between the first
  dot and the next one, or the end).\<close>

definition includes_dot :: "string \<Rightarrow> bool" where
  "includes_dot s = (CHR ''.'' \<in> set s)"

definition split_dot_second :: "string \<Rightarrow> string" where
  "split_dot_second s =
     takeWhile (\<lambda>c. c \<noteq> CHR ''.'') (drop 1 (dropWhile (\<lambda>c. c \<noteq> CHR ''.'') s))"

text \<open>The comparison and the multiplication of the three corrective rules; a comparison
  with \<open>NaN\<close> is false, and the product is rounded to a binary64 number.\<close>

definition below50 :: "jsnum \<Rightarrow> bool" where
  "below50 v = (case v of NaN \<Rightarrow> False | Num q \<Rightarrow> q < 50 | Infty pos \<Rightarrow> \<not> pos)"

definition times1000 :: "jsnum \<Rightarrow> jsnum" where
  "times1000 v = (case v of NaN \<Rightarrow> NaN | Num q \<Rightarrow> to_double (q * 1000) | Infty pos \<Rightarrow> Infty pos)"

definition extractNumberFromString :: "string \<Rightarrow> jsnum" where
  "extractNumberFromString txt =
     (if txt = [] then NaN
      else
        let cleaned = replace_first (CHR '','') ''.'' (collapse_ws (js_trim txt))
        in (case match_number cleaned of
              None \<Rightarrow> NaN
            | Some numStr \<Rightarrow>
                let value = parseFloat (replace_first (CHR '','') ''.'' numStr);
                    value = (if test_thousands numStr
                             then parseFloat (replace_first (CHR ''.'') [] numStr) else value);
                    value = (if below50 value \<and> test_digit_dot_digit numStr
                             then times1000 value else value);
                    value = (if below50 value \<and> includes_dot numStr
                                \<and> length (split_dot_second numStr) > 2
                             then times1000 value else value)
                in value))"




section \<open>Fetching with retries (pdfAlertTracker.js and fetchHelpers, fetchWithRetries)\<close>

text \<open>
  An error object carries the two fields the retry loop reads: \<open>code\<close> (absent on most
  errors) and \<open>message\<close>. One call of \<open>fetch\<close> either resolves to a response, of which
  the loop reads the status, or rejects with an error; a timeout aborts the request and
  surfaces as a rejection too.
\<close>

record js_error =
  code :: "string option"
  message :: string

datatype fetch_outcome = Responded nat | Rejected js_error

datatype fetch_result = Resolved nat | Threw js_error | ThrewNull

datatype fetch_event = Fetch nat | Sleep nat

text \<open>\<open>res.ok\<close>: the status is in the range 200 to 299.\<close>

definition res_ok :: "nat \<Rightarrow> bool" where
  "res_ok st = (200 \<le> st \<and> st \<le> 299)"

text \<open>Decimal rendering of a natural number, as a template literal prints an integer.\<close>

fun show_nat :: "nat \<Rightarrow> string" where
  "show_nat n = (if n < 10 then [''0123456789'' ! n]
                 else show_nat (n div 10) @ [''0123456789'' ! (n mod 10)])"

declare show_nat.simps [simp del]

text \<open>\<open>s.startsWith(p)\<close> and \<open>s.includes(p)\<close>.\<close>

fun starts_with :: "string \<Rightarrow> string \<Rightarrow> bool" where
  "starts_with s [] = True"
| "starts_with [] (p # ps) = False"
| "starts_with (c # cs) (p # ps) = (c = p \<and> starts_with cs ps)"

fun str_includes :: "string \<Rightarrow> string \<Rightarrow> bool" where
  "str_includes [] p = (p = [])"
| "str_includes (c # cs) p = (starts_with (c # cs) p \<or> str_includes cs p)"

text \<open>The error thrown inside the \<open>try\<close> block for a response that is not ok:
  \<open>new Error(`fetch ${url} failed ${res.status}`)\<close>.\<close>

definition http_error :: "string \<Rightarrow> nat \<Rightarrow> js_error" where
  "http_error url st =
     \<lparr>code = None, message = ''fetch '' @ url @ '' failed '' @ show_nat st\<rparr>"

text \<open>What the \<open>catch\<close> block receives for an attempt, if anything.\<close>

definition failure_of :: "string \<Rightarrow> fetch_outcome \<Rightarrow> js_error option" where
  "failure_of url out =
     (case out of
        Responded st \<Rightarrow> if res_ok st then None else Some (http_error url st)
      | Rejected e \<Rightarrow> Some e)"

definition isTransient :: "js_error \<Rightarrow> bool" where
  "isTransient err =
     (code err = Some ''ECONNRESET'' \<or> code err = Some ''EPIPE'' \<or>
      code err = Some ''ETIMEDOUT'' \<or>
      str_includes (message err) ''socket hang up'' \<or>
      str_includes (message err) ''network timeout'' \<or>
      str_includes (message err) ''aborted'' \<or>
      str_includes (message err) ''fetch'')"

text \<open>\<open>Math.min(1000 * Math.pow(2, attempt - 1), 10000)\<close>, and
  \<open>Math.floor(Math.random() * 500)\<close> for a draw \<open>r\<close> of \<open>Math.random()\<close>.\<close>

definition backoffBase :: "nat \<Rightarrow> nat" where
  "backoffBase attempt = min (1000 * 2 ^ (attempt - 1)) 10000"

definition jitter :: "rat \<Rightarrow> nat" where
  "jitter r = nat \<lfloor>r * 500\<rfloor>"

text \<open>
  The \<open>for\<close> loop of \<open>fetchWithRetries\<close>, entered with the loop variable
  \<open>attempt\<close> and the last error seen so far. \<open>fetcher k\<close> is what the \<open>k\<close>-th call of
  \<open>fetch\<close> does and \<open>rnd k\<close> the draw of \<open>Math.random()\<close> after the \<open>k\<close>-th failure. The
  result comes with the trace of requests sent and delays slept. \<open>retries\<close> is a natural
  number: a value below 1 runs no iteration, as 0 does.
\<close>

function fetchLoop ::
  "(nat \<Rightarrow> fetch_outcome) \<Rightarrow> (nat \<Rightarrow> rat) \<Rightarrow> string \<Rightarrow> nat \<Rightarrow> nat \<Rightarrow> js_error option
   \<Rightarrow> fetch_result \<times> fetch_event list" where
  "fetchLoop fetcher rnd url retries attempt lastErr =
     (if attempt \<le> retries then
        (case fetcher attempt of
           Responded st \<Rightarrow>
             if res_ok st then (Resolved st, [Fetch attempt])
             else
               let err = http_error url st in
               if \<not> isTransient err \<or> attempt = retries then (Threw err, [Fetch attempt])
               else
                 let wait = backoffBase attempt + jitter (rnd attempt);
                     (res, evs) = fetchLoop fetcher rnd url retries (attempt + 1) (Some err)
                 in (res, Fetch attempt # Sleep wait # evs)
         | Rejected err \<Rightarrow>
             if \<not> isTransient err \<or> attempt = retries then (Threw err, [Fetch attempt])
             else
               let wait = backoffBase attempt + jitter (rnd attempt);
                   (res, evs) = fetchLoop fetcher rnd url retries (attempt + 1) (Some err)
               in (res, Fetch attempt # Sleep wait # evs))
      else (case lastErr of None \<Rightarrow> (ThrewNull, []) | Some e \<Rightarrow> (Threw e, [])))"
  by pat_completeness auto
termination
  by (relation "measure (\<lambda>(fetcher, rnd, url, retries, attempt, lastErr). Suc retries - attempt)") auto

declare fetchLoop.simps [simp del]

definition fetchWithRetries ::
  "(nat \<Rightarrow> fetch_outcome) \<Rightarrow> (nat \<Rightarrow> rat) \<Rightarrow> string \<Rightarrow> nat
   \<Rightarrow> fetch_result \<times> fetch_event list" where
  "fetchWithRetries fetcher rnd url retries = fetchLoop fetcher rnd url retries 1 None"

text \<open>The trace of a run of transient failures from attempt \<open>a\<close> up to, not including,
  attempt \<open>k\<close>: each request is followed by its delay. \<open>attempts\<close> counts the requests of
  a trace.\<close>

definition retry_trace :: "(nat \<Rightarrow> rat) \<Rightarrow> nat \<Rightarrow> nat \<Rightarrow> fetch_event list" where
  "retry_trace rnd a k =
     concat (map (\<lambda>j. [Fetch j, Sleep (backoffBase j + jitter (rnd j))]) [a..<k])"

definition attempts :: "fetch_event list \<Rightarrow> nat" where
  "attempts evs = length (filter (\<lambda>e. case e of Fetch _ \<Rightarrow> True | Sleep _ \<Rightarrow> False) evs)"

section \<open>Price alerts (functions.improved.cjs, pctChange and checkTickersAndAlert)\<close>

text \<open>
  Division and multiplication as \<open>pctChange\<close> uses them. A quotient by zero is not an
  error in JavaScript: it is \<open>NaN\<close> for \<open>0 / 0\<close> and an infinity otherwise.
\<close>

definition js_div :: "rat \<Rightarrow> rat \<Rightarrow> jsnum" where
  "js_div x y = (if y = 0 then (if x = 0 then NaN else Infty (0 < x)) else Num (x / y))"

definition js_times :: "jsnum \<Rightarrow> rat \<Rightarrow> jsnum" where
  "js_times v c =
     (case v of
        NaN \<Rightarrow> NaN
      | Num q \<Rightarrow> Num (q * c)
      | Infty pos \<Rightarrow> if c = 0 then NaN else Infty (pos = (0 < c)))"

text \<open>\<open>v >= c\<close> and \<open>v <= c\<close> for a finite \<open>c\<close>.\<close>

definition js_ge :: "jsnum \<Rightarrow> rat \<Rightarrow> bool" where
  "js_ge v c = (case v of NaN \<Rightarrow> False | Num q \<Rightarrow> c \<le> q | Infty pos \<Rightarrow> pos)"

definition js_le :: "jsnum \<Rightarrow> rat \<Rightarrow> bool" where
  "js_le v c = (case v of NaN \<Rightarrow> False | Num q \<Rightarrow> q \<le> c | Infty pos \<Rightarrow> \<not> pos)"

text \<open>
  \<open>pctChange(oldP, newP)\<close>. A price is a number or \<open>null\<close> (\<open>None\<close>); the result is
  \<open>null\<close> or the number computed.
\<close>

definition pctChange :: "rat option \<Rightarrow> rat option \<Rightarrow> jsnum option" where
  "pctChange oldP newP =
     (case oldP of
        None \<Rightarrow> None
      | Some a \<Rightarrow>
          (case newP of
             None \<Rightarrow> None
           | Some b \<Rightarrow> if a = 0 then None else Some (js_times (js_div (b - a) a) 100)))"

text \<open>
  The pieces of a template literal: literal text, and the default rendering of a number
  (\<open>${x}\<close> for a number \<open>x\<close>), which is left uninterpreted.
\<close>

datatype piece = Lit string | NumText rat

text \<open>
  \<open>x.toFixed(2)\<close>: two decimals, rounded to the nearest hundredth with ties away from
  zero, a minus sign for a negative \<open>x\<close>; the default rendering from \<open>10^21\<close> on.
\<close>

definition fixed2 :: "rat \<Rightarrow> string" where
  "fixed2 q =
     (let n = nat \<lfloor>\<bar>q\<bar> * 100 + 1 / 2\<rfloor>;
          ds = show_nat n;
          ds = replicate (3 - length ds) (CHR ''0'') @ ds
      in (if q < 0 then ''-'' else []) @
         take (length ds - 2) ds @ ''.'' @ drop (length ds - 2) ds)"

definition toFixed2 :: "jsnum \<Rightarrow> piece" where
  "toFixed2 v =
     (case v of
        NaN \<Rightarrow> Lit ''NaN''
      | Infty pos \<Rightarrow> Lit (if pos then ''Infinity'' else ''-Infinity'')
      | Num q \<Rightarrow> if 10 ^ 21 \<le> \<bar>q\<bar> then NumText q else Lit (fixed2 q))"

text \<open>
  The persisted state maps a ticker to its last price and the time it was recorded. What
  the outside world does during one iteration of the loop is an input: the outcome of
  \<open>fetchPriceForTicker\<close> (an error message or a price), whether \<open>sendMail\<close> rejects, and
  the clock.
\<close>

record entry =
  price :: "rat option"
  updated :: string

type_synonym prices_state = "string \<rightharpoonup> entry"

record tick_world =
  fetched :: "string + rat"
  mail_error :: "string option"
  now :: string

datatype ticker_result = Checked rat "rat option" "jsnum option" | Failed string

datatype effect =
    MailSent string "piece list" "piece list"
  | MailFailed string "piece list" "piece list"
  | SavePrices prices_state string

text \<open>
  The body of the \<open>for\<close> loop for ticker \<open>t\<close>: the entry of \<open>results\<close>, the state
  afterwards and the effects in order. \<open>up\<close> and \<open>down\<close> are the thresholds after
  \<open>parseFloat\<close>, \<open>file\<close> is \<open>opts.PRICES_FILE || 'prices.json'\<close>. A rejection of
  \<open>sendMail\<close> leaves the \<open>try\<close> block before the state is touched.
\<close>

definition checkTickersAndAlert_body ::
  "rat \<Rightarrow> rat \<Rightarrow> string \<Rightarrow> string \<Rightarrow> string \<Rightarrow> tick_world \<Rightarrow> prices_state
   \<Rightarrow> ticker_result \<times> prices_state \<times> effect list" where
  "checkTickersAndAlert_body up down receiver file t w pricesState =
     (case fetched w of
        Inl msg \<Rightarrow> (Failed msg, pricesState, [])
      | Inr p \<Rightarrow>
          let prev = (case pricesState t of None \<Rightarrow> None | Some e \<Rightarrow> price e);
              change = (if prev \<noteq> None then pctChange prev (Some p) else None);
              saved = pricesState(t \<mapsto> \<lparr>price = Some p, updated = now w\<rparr>)
          in (case (prev, change) of
                (Some old, Some c) \<Rightarrow>
                  if js_ge c up then
                    let subject = [Lit ''ALERT +'', NumText up, Lit ''% '', Lit t, Lit '' ('',
                                   toFixed2 c, Lit ''%)''];
                        text = [Lit t, Lit '' jumped from '', NumText old, Lit '' to '',
                                NumText p, Lit '' ('', toFixed2 c, Lit ''%)'']
                    in (case mail_error w of
                          Some m \<Rightarrow> (Failed m, pricesState, [MailFailed receiver subject text])
                        | None \<Rightarrow>
                            (Checked p prev change, saved,
                             [MailSent receiver subject text, SavePrices saved file]))
                  else if js_le c (- down) then
                    let subject = [Lit ''ALERT -'', NumText down, Lit ''% '', Lit t, Lit '' ('',
                                   toFixed2 c, Lit ''%)''];
                        text = [Lit t, Lit '' dropped from '', NumText old, Lit '' to '',
                                NumText p, Lit '' ('', toFixed2 c, Lit ''%)'']
                    in (case mail_error w of
                          Some m \<Rightarrow> (Failed m, pricesState, [MailFailed receiver subject text])
                        | None \<Rightarrow>
                            (Checked p prev change, saved,
                             [MailSent receiver subject text, SavePrices saved file]))
                  else (Checked p prev change, saved, [SavePrices saved file])
              | _ \<Rightarrow> (Checked p prev change, saved, [SavePrices saved file])))"



section \<open>Mailbox reconnects (functions.improved.cjs, startImapPolling)\<close>

text \<open>
  The variables of \<open>startImapPolling\<close> that \<open>scheduleReconnect\<close> and \<open>connect\<close> share:
  the \<open>stopped\<close> flag, the counter, the delay of the pending reconnect timer if one is
  set, whether a connection object is held and whether the poll interval runs.
\<close>

record imap_state =
  stopped :: bool
  reconnectAttempts :: nat
  reconnectTimer :: "nat option"
  connected :: bool
  polling :: bool

definition MAX_RECONNECT :: nat where
  "MAX_RECONNECT = 10"

definition scheduleReconnect :: "imap_state \<Rightarrow> imap_state" where
  "scheduleReconnect s =
     (if stopped s then s
      else
        let s1 = s\<lparr>polling := False, connected := False\<rparr>;
            n = reconnectAttempts s1 + 1
        in if n > MAX_RECONNECT
           then s1\<lparr>reconnectAttempts := 0, reconnectTimer := Some 60000\<rparr>
           else s1\<lparr>reconnectAttempts := n, reconnectTimer := Some (min 30000 (1000 * 2 ^ n))\<rparr>)"

text \<open>
  \<open>connect\<close>, given whether \<open>imaps.connect\<close> and then \<open>openBox\<close> succeed. The counter is
  reset as soon as the connection is made; a failure of either step goes to
  \<open>scheduleReconnect\<close>. The timer callback clears \<open>reconnectTimer\<close> and calls \<open>connect\<close>.
\<close>

definition connect :: "bool \<Rightarrow> bool \<Rightarrow> imap_state \<Rightarrow> imap_state" where
  "connect connect_ok openBox_ok s =
     (if stopped s then s
      else if connect_ok then
        let s1 = s\<lparr>connected := True, reconnectAttempts := 0\<rparr>
        in if openBox_ok then s1\<lparr>polling := True\<rparr> else scheduleReconnect s1
      else scheduleReconnect s)"

definition reconnectTimer_fires :: "bool \<Rightarrow> bool \<Rightarrow> imap_state \<Rightarrow> imap_state" where
  "reconnectTimer_fires connect_ok openBox_ok s =
     connect connect_ok openBox_ok (s\<lparr>reconnectTimer := None\<rparr>)"

section \<open>The page pool (functions.improved.cjs, getPage and releasePage)\<close>

text \<open>
  Pages are identified by numbers. The module state holds whether the browser is
  launched and the free list \<open>pagePool\<close> (pushed and popped at its end); the model adds
  where each page currently is, the next fresh page number and the pages on which
  \<open>close()\<close> was called, in order.

  The functions of the pool are \<open>async\<close>: a call runs without interruption up to its next
  \<open>await\<close>, and other calls may run before it resumes. Each function is therefore given
  in the pieces between its \<open>await\<close>s, and a call that has reached an \<open>await\<close> is recorded
  with what it will do when it resumes.
\<close>

datatype location = Blank | At string

record browser_state =
  browser :: bool
  pagePool :: "nat list"
  location :: "nat \<Rightarrow> location"
  next_page :: nat
  closedPages :: "nat list"

definition initial_state :: browser_state where
  "initial_state =
     \<lparr>browser = False, pagePool = [], location = (\<lambda>_. Blank), next_page = 0, closedPages = []\<rparr>"

text \<open>\<open>opts.PUPPETEER_MAX_PAGES || DEFAULTS.PUPPETEER_MAX_PAGES\<close>: an absent or zero
  option falls back to the default.\<close>

definition capacity :: "nat option \<Rightarrow> nat \<Rightarrow> nat" where
  "capacity opts_max default_max =
     (case opts_max of None \<Rightarrow> default_max | Some n \<Rightarrow> if n = 0 then default_max else n)"

text \<open>
  \<open>ensureBrowser\<close> returns at once when the browser is there. Otherwise it awaits
  \<open>puppeteer.launch\<close>; when that promise resolves, \<open>ensureBrowser_resume\<close> sets the browser
  and empties the pool, and when it rejects the call throws (\<open>None\<close>).
\<close>

definition ensureBrowser_resume :: "bool \<Rightarrow> browser_state \<Rightarrow> browser_state option" where
  "ensureBrowser_resume launch_ok st =
     (if launch_ok then Some (st\<lparr>browser := True, pagePool := []\<rparr>) else None)"

text \<open>
  \<open>getPage\<close> after its \<open>await ensureBrowser(opts)\<close>: the test of the pool and the \<open>pop\<close> are
  one piece. With an empty pool the call awaits \<open>browser.newPage()\<close>, which does not
  touch the pool any more; the new page gets the next number, and \<open>None\<close> for the page
  means that the call threw.
\<close>

definition getPage_take :: "bool \<Rightarrow> browser_state \<Rightarrow> nat option \<times> browser_state" where
  "getPage_take newPage_ok st =
     (if pagePool st \<noteq> [] then (Some (last (pagePool st)), st\<lparr>pagePool := butlast (pagePool st)\<rparr>)
      else if newPage_ok then
        (Some (next_page st),
         st\<lparr>location := (location st)(next_page st := Blank), next_page := Suc (next_page st)\<rparr>)
      else (None, st))"

text \<open>
  \<open>releasePage\<close> up to its \<open>await\<close>: nothing to do for a missing page; otherwise the
  length of the pool is tested, and the call awaits either \<open>p.goto('about:blank')\<close> or
  \<open>p.close()\<close>. The state is not changed by this piece.
\<close>

datatype release_wait = AwaitGoto nat | AwaitClose nat

definition releasePage_enter ::
  "nat option \<Rightarrow> nat option \<Rightarrow> nat \<Rightarrow> browser_state \<Rightarrow> release_wait option" where
  "releasePage_enter p opts_max default_max st =
     (case p of
        None \<Rightarrow> None
      | Some pg \<Rightarrow>
          if length (pagePool st) < capacity opts_max default_max then Some (AwaitGoto pg)
          else Some (AwaitClose pg))"

text \<open>
  \<open>releasePage\<close> from its \<open>await\<close> on, given whether \<open>goto\<close> and \<open>close()\<close> succeed. After
  the navigation the page is pushed, with no second look at the length of the pool. A
  navigation that throws leads to the \<open>catch\<close> block, which closes the page; a \<open>close()\<close>
  that throws in the \<open>else\<close> branch is tried once more there.
\<close>

definition releasePage_resume :: "release_wait \<Rightarrow> bool \<Rightarrow> bool \<Rightarrow> browser_state \<Rightarrow> browser_state" where
  "releasePage_resume w goto_ok close_ok st =
     (case w of
        AwaitGoto pg \<Rightarrow>
          if goto_ok
          then st\<lparr>location := (location st)(pg := Blank), pagePool := pagePool st @ [pg]\<rparr>
          else st\<lparr>closedPages := closedPages st @ [pg]\<rparr>
      | AwaitClose pg \<Rightarrow>
          if close_ok then st\<lparr>closedPages := closedPages st @ [pg]\<rparr>
          else st\<lparr>closedPages := closedPages st @ [pg, pg]\<rparr>)"

text \<open>\<open>closeBrowser\<close> awaits \<open>browser.close()\<close> when the browser is there; its \<open>finally\<close>
  block then forgets the browser and empties the pool.\<close>

definition closeBrowser_finally :: "browser_state \<Rightarrow> browser_state" where
  "closeBrowser_finally st = st\<lparr>browser := False, pagePool := []\<rparr>"

text \<open>
  The calls in flight. A call event runs the piece of the function up to its first
  \<open>await\<close> and records the call as waiting; \<open>Resume i a b\<close> lets the \<open>i\<close>-th waiting call go
  on, the awaited operation having succeeded or not (\<open>a\<close>; \<open>b\<close> is the outcome of the
  \<open>close()\<close> of \<open>releasePage\<close>). Every \<open>await\<close> suspends the call, also
  \<open>await ensureBrowser(opts)\<close> when the browser is there.
\<close>

datatype waiting = Launching | Taking | Releasing release_wait | Closing

datatype pool_event =
    CallGetPage
  | CallReleasePage "nat option"
  | CallCloseBrowser
  | Resume nat bool bool

definition drop_nth :: "nat \<Rightarrow> 'a list \<Rightarrow> 'a list" where
  "drop_nth i xs = take i xs @ drop (Suc i) xs"

fun pool_step ::
  "nat option \<Rightarrow> nat \<Rightarrow> pool_event \<Rightarrow> browser_state \<times> waiting list \<Rightarrow> browser_state \<times> waiting list" where
  "pool_step opts_max default_max CallGetPage (st, ws) =
     (st, ws @ [if browser st then Taking else Launching])"
| "pool_step opts_max default_max (CallReleasePage p) (st, ws) =
     (case releasePage_enter p opts_max default_max st of
        None \<Rightarrow> (st, ws)
      | Some w \<Rightarrow> (st, ws @ [Releasing w]))"
| "pool_step opts_max default_max CallCloseBrowser (st, ws) =
     (if browser st then (st, ws @ [Closing]) else (closeBrowser_finally st, ws))"
| "pool_step opts_max default_max (Resume i a b) (st, ws) =
     (if i < length ws then
        (case ws ! i of
           Launching \<Rightarrow>
             (case ensureBrowser_resume a st of
                None \<Rightarrow> (st, drop_nth i ws)
              | Some st1 \<Rightarrow> (st1, ws[i := Taking]))
         | Taking \<Rightarrow> (snd (getPage_take a st), drop_nth i ws)
         | Releasing w \<Rightarrow> (releasePage_resume w a b st, drop_nth i ws)
         | Closing \<Rightarrow> (closeBrowser_finally st, drop_nth i ws))
      else (st, ws))"

fun pool_run ::
  "nat option \<Rightarrow> nat \<Rightarrow> pool_event list \<Rightarrow> browser_state \<times> waiting list \<Rightarrow> browser_state \<times> waiting list" where
  "pool_run opts_max default_max [] c = c"
| "pool_run opts_max default_max (e # es) c =
     pool_run opts_max default_max es (pool_step opts_max default_max e c)"

text \<open>
  A call that no other call overlaps: its pieces one after the other. These are the
  functions as a caller sees them who always awaits one call before it makes the next.
\<close>

definition ensureBrowser :: "bool \<Rightarrow> browser_state \<Rightarrow> browser_state option" where
  "ensureBrowser launch_ok st = (if browser st then Some st else ensureBrowser_resume launch_ok st)"

definition getPage :: "bool \<Rightarrow> bool \<Rightarrow> browser_state \<Rightarrow> nat option \<times> browser_state" where
  "getPage launch_ok newPage_ok st =
     (case ensureBrowser launch_ok st of
        None \<Rightarrow> (None, st)
      | Some st1 \<Rightarrow> getPage_take newPage_ok st1)"

definition releasePage ::
  "nat option \<Rightarrow> nat option \<Rightarrow> nat \<Rightarrow> bool \<Rightarrow> bool \<Rightarrow> browser_state \<Rightarrow> browser_state" where
  "releasePage p opts_max default_max goto_ok close_ok st =
     (case releasePage_enter p opts_max default_max st of
        None \<Rightarrow> st
      | Some w \<Rightarrow> releasePage_resume w goto_ok close_ok st)"

definition closeBrowser :: "browser_state \<Rightarrow> browser_state" where
  "closeBrowser st = closeBrowser_finally st"

datatype pool_op = GetPage bool bool | ReleasePage "nat option" bool bool | CloseBrowser

fun run_op :: "nat option \<Rightarrow> nat \<Rightarrow> pool_op \<Rightarrow> browser_state \<Rightarrow> browser_state" where
  "run_op opts_max default_max (GetPage launch_ok newPage_ok) st = snd (getPage launch_ok newPage_ok st)"
| "run_op opts_max default_max (ReleasePage p goto_ok close_ok) st =
     releasePage p opts_max default_max goto_ok close_ok st"
| "run_op opts_max default_max CloseBrowser st = closeBrowser st"

fun run_ops :: "nat option \<Rightarrow> nat \<Rightarrow> pool_op list \<Rightarrow> browser_state \<Rightarrow> browser_state" where
  "run_ops opts_max default_max [] st = st"
| "run_ops opts_max default_max (op # ops) st =
     run_ops opts_max default_max ops (run_op opts_max default_max op st)"

section \<open>Writing the state files (savePrices in functions.improved.cjs, writeJSON in pdfAlertTracker.js)\<close>

text \<open>
  The file system binds names to files and holds the content of each file. Files are
  numbered; a descriptor that was opened on a file keeps meaning that file when its name
  is renamed or removed. What a reader, or the program after a restart, finds under a
  path is \<open>read_file\<close>. The document is the text \<open>JSON.stringify(data, null, 2)\<close>.
\<close>

record filesystem =
  names :: "string \<rightharpoonup> nat"
  content :: "nat \<Rightarrow> string"
  next_file :: nat

definition read_file :: "filesystem \<Rightarrow> string \<Rightarrow> string option" where
  "read_file fs path = map_option (content fs) (names fs path)"

text \<open>Opening a path for writing truncates the file bound to it, or binds the path to
  a new empty file.\<close>

definition open_w :: "string \<Rightarrow> filesystem \<Rightarrow> nat \<times> filesystem" where
  "open_w path fs =
     (case names fs path of
        Some i \<Rightarrow> (i, fs\<lparr>content := (content fs)(i := [])\<rparr>)
      | None \<Rightarrow>
          (next_file fs,
           fs\<lparr>names := (names fs)(path \<mapsto> next_file fs),
              content := (content fs)(next_file fs := []),
              next_file := Suc (next_file fs)\<rparr>))"

text \<open>A descriptor writes at its own position; a file that is shorter than the
  position, because somebody truncated it meanwhile, is filled up with NUL characters.\<close>

definition write_at :: "nat \<Rightarrow> nat \<Rightarrow> char \<Rightarrow> filesystem \<Rightarrow> filesystem" where
  "write_at i pos c fs =
     (let s = content fs i;
          s1 = s @ replicate (pos - length s) (CHR 0x00)
      in fs\<lparr>content := (content fs)(i := take pos s1 @ [c] @ drop (Suc pos) s1)\<rparr>)"

text \<open>\<open>rename\<close> replaces the target in one step and fails when the source name is not
  there; \<open>unlink\<close> removes a name.\<close>

definition fs_rename :: "string \<Rightarrow> string \<Rightarrow> filesystem \<Rightarrow> filesystem option" where
  "fs_rename a b fs =
     (case names fs a of
        None \<Rightarrow> None
      | Some i \<Rightarrow> Some (fs\<lparr>names := (names fs)(a := None, b \<mapsto> i)\<rparr>))"

definition fs_unlink :: "string \<Rightarrow> filesystem \<Rightarrow> filesystem" where
  "fs_unlink a fs = fs\<lparr>names := (names fs)(a := None)\<rparr>"

text \<open>
  \<open>writeFile(path, data)\<close>, one step of the file system at a time: the file is opened,
  the characters are written one after the other, the file is closed. A step that fails
  (\<open>ok\<close> is false) rejects the promise and leaves the file as it is then. Between two
  steps other calls can run, and a reader can look.
\<close>

datatype write_pc = ToOpen | Writing nat nat | Closed | Failed

definition writeFile_step ::
  "string \<Rightarrow> string \<Rightarrow> bool \<Rightarrow> write_pc \<Rightarrow> filesystem \<Rightarrow> write_pc \<times> filesystem" where
  "writeFile_step path data ok pc fs =
     (case pc of
        ToOpen \<Rightarrow>
          if ok then (case open_w path fs of (i, fs1) \<Rightarrow> (Writing i 0, fs1)) else (Failed, fs)
      | Writing i k \<Rightarrow>
          if length data \<le> k then (Closed, fs)
          else if ok then (Writing i (Suc k), write_at i k (data ! k) fs)
          else (Failed, fs)
      | Closed \<Rightarrow> (Closed, fs)
      | Failed \<Rightarrow> (Failed, fs))"

text \<open>
  \<open>savePrices\<close>: \<open>writeFile\<close> on \<open>f + '.tmp'\<close>, then \<open>rename\<close>. A rejection of either leads
  to the \<open>catch\<close> block, which removes the temporary file if it exists and ignores a
  failure of that.
\<close>

datatype save_pc = SaveWrite write_pc | SaveRename | SaveCatch | SaveDone

definition savePrices_step ::
  "string \<Rightarrow> string \<Rightarrow> bool \<Rightarrow> save_pc \<Rightarrow> filesystem \<Rightarrow> save_pc \<times> filesystem" where
  "savePrices_step doc f ok pc fs =
     (let tmp = f @ ''.tmp''
      in case pc of
           SaveWrite w \<Rightarrow>
             (case writeFile_step tmp doc ok w fs of
                (w1, fs1) \<Rightarrow>
                  ((case w1 of Closed \<Rightarrow> SaveRename | Failed \<Rightarrow> SaveCatch | _ \<Rightarrow> SaveWrite w1), fs1))
         | SaveRename \<Rightarrow>
             (if ok then
                (case fs_rename tmp f fs of
                   Some fs1 \<Rightarrow> (SaveDone, fs1)
                 | None \<Rightarrow> (SaveCatch, fs))
              else (SaveCatch, fs))
         | SaveCatch \<Rightarrow> (SaveDone, if ok \<and> names fs tmp \<noteq> None then fs_unlink tmp fs else fs)
         | SaveDone \<Rightarrow> (SaveDone, fs))"

text \<open>
  Calls of \<open>savePrices\<close> in flight together: \<open>calls\<close> gives the document and the file of
  each, \<open>pcs\<close> where each call stands, and the schedule says which call makes the next
  step and whether that step succeeds. The result is the list of the states of the file
  system, every one of which a reader or a restart can find.
\<close>

fun savePrices_calls ::
  "(string \<times> string) list \<Rightarrow> (nat \<times> bool) list \<Rightarrow> save_pc list \<Rightarrow> filesystem \<Rightarrow> filesystem list" where
  "savePrices_calls calls [] pcs fs = [fs]"
| "savePrices_calls calls ((i, ok) # sched) pcs fs =
     fs # (if i < length calls \<and> i < length pcs then
             (case savePrices_step (fst (calls ! i)) (snd (calls ! i)) ok (pcs ! i) fs of
                (pc1, fs1) \<Rightarrow> savePrices_calls calls sched (pcs[i := pc1]) fs1)
           else savePrices_calls calls sched pcs fs)"

text \<open>One call of \<open>savePrices\<close> that no other call overlaps, \<open>oks\<close> saying which of its
  steps succeed.\<close>

definition savePrices :: "string \<Rightarrow> string \<Rightarrow> bool list \<Rightarrow> filesystem \<Rightarrow> filesystem list" where
  "savePrices doc f oks fs = savePrices_calls [(doc, f)] (map (Pair 0) oks) [SaveWrite ToOpen] fs"

text \<open>
  What the target must be like at the start: the file bound to \<open>f\<close>, if there is one, is
  an existing file and is not also bound to the temporary name (no hard link).
\<close>

definition target_apart :: "string \<Rightarrow> filesystem \<Rightarrow> bool" where
  "target_apart f fs =
     (case names fs f of
        None \<Rightarrow> True
      | Some j \<Rightarrow> j < next_file fs \<and> names fs (f @ ''.tmp'') \<noteq> Some j)"

text \<open>What holds of the file system where a lone call stands, \<open>old\<close> being what the
  target held when the call began.\<close>

fun save_inv :: "string \<Rightarrow> string \<Rightarrow> string option \<Rightarrow> save_pc \<Rightarrow> filesystem \<Rightarrow> bool" where
  "save_inv doc f old (SaveWrite ToOpen) fs = (read_file fs f = old \<and> target_apart f fs)"
| "save_inv doc f old (SaveWrite (Writing i k)) fs =
     (read_file fs f = old \<and> target_apart f fs \<and> names fs (f @ ''.tmp'') = Some i \<and>
      content fs i = take k doc)"
| "save_inv doc f old (SaveWrite Closed) fs =
     (read_file fs f = old \<and> target_apart f fs \<and> read_file fs (f @ ''.tmp'') = Some doc)"
| "save_inv doc f old (SaveWrite Failed) fs = (read_file fs f = old \<and> target_apart f fs)"
| "save_inv doc f old SaveRename fs =
     (read_file fs f = old \<and> target_apart f fs \<and> read_file fs (f @ ''.tmp'') = Some doc)"
| "save_inv doc f old SaveCatch fs = (read_file fs f = old \<and> target_apart f fs)"
| "save_inv doc f old SaveDone fs = (read_file fs f = old \<or> read_file fs f = Some doc)"

text \<open>\<open>writeJSON\<close>: after \<open>ensureDir\<close>, whose errors are ignored, \<open>writeFile\<close> on the file
  itself; a rejection is thrown to the caller.\<close>

fun writeJSON_from :: "string \<Rightarrow> string \<Rightarrow> bool list \<Rightarrow> write_pc \<Rightarrow> filesystem \<Rightarrow> filesystem list" where
  "writeJSON_from filePath doc [] pc fs = [fs]"
| "writeJSON_from filePath doc (ok # oks) pc fs =
     fs # (case writeFile_step filePath doc ok pc fs of
             (pc1, fs1) \<Rightarrow> writeJSON_from filePath doc oks pc1 fs1)"

definition writeJSON :: "string \<Rightarrow> string \<Rightarrow> bool list \<Rightarrow> filesystem \<Rightarrow> filesystem list" where
  "writeJSON filePath doc oks fs = writeJSON_from filePath doc oks ToOpen fs"

text \<open>The text of \<open>JSON.stringify({ seen: [] }, null, 2)\<close>.\<close>

definition empty_seen_doc :: string where
  "empty_seen_doc =
     ''{'' @ [CHR 0x0A] @ ''  '' @ [CHR 0x22] @ ''seen'' @ [CHR 0x22] @ '': []'' @ [CHR 0x0A] @ ''}''"

section \<open>News items (pdfAlertTracker.js, parseDateFromTd and processFirstItemIfToday)\<close>

text \<open>
  \<open>text.match(/(\d{1,2})\.(\d{1,2})\.(\d{4})\.?/)\<close>. At one position the day and the month
  are tried with two digits first and then with one, as the greedy quantifier backtracks;
  the leftmost position with a match wins. The groups are read by \<open>parseInt\<close>.
\<close>

definition take_digits :: "nat \<Rightarrow> string \<Rightarrow> (string \<times> string) option" where
  "take_digits n s =
     (if n \<le> length s \<and> list_all is_digit (take n s) then Some (take n s, drop n s) else None)"

definition after_dot :: "string \<Rightarrow> string option" where
  "after_dot s = (case s of [] \<Rightarrow> None | c # r \<Rightarrow> if c = CHR ''.'' then Some r else None)"

definition date_with :: "nat \<Rightarrow> nat \<Rightarrow> string \<Rightarrow> (nat \<times> nat \<times> nat) option" where
  "date_with a b s =
     (case take_digits a s of
        None \<Rightarrow> None
      | Some (d, r1) \<Rightarrow>
          (case after_dot r1 of
             None \<Rightarrow> None
           | Some r2 \<Rightarrow>
               (case take_digits b r2 of
                  None \<Rightarrow> None
                | Some (m, r3) \<Rightarrow>
                    (case after_dot r3 of
                       None \<Rightarrow> None
                     | Some r4 \<Rightarrow>
                         (case take_digits 4 r4 of
                            None \<Rightarrow> None
                          | Some (y, r5) \<Rightarrow>
                              Some (nat_of_digits d, nat_of_digits m, nat_of_digits y))))))"

definition date_at :: "string \<Rightarrow> (nat \<times> nat \<times> nat) option" where
  "date_at s =
     (case date_with 2 2 s of Some r \<Rightarrow> Some r | None \<Rightarrow>
      (case date_with 2 1 s of Some r \<Rightarrow> Some r | None \<Rightarrow>
       (case date_with 1 2 s of Some r \<Rightarrow> Some r | None \<Rightarrow> date_with 1 1 s)))"

fun parseDateFromTd :: "string \<Rightarrow> (nat \<times> nat \<times> nat) option" where
  "parseDateFromTd [] = None"
| "parseDateFromTd (c # cs) =
     (case date_at (c # cs) of Some r \<Rightarrow> Some r | None \<Rightarrow> parseDateFromTd cs)"

text \<open>
  What \<open>processFirstItemIfToday\<close> reads from the page, once parsed: the row of the first
  \<open>td.date\<close> cell, with the text of that cell, the address of the first PDF link of the
  row resolved against the page address (if the row has one), and the ticker found for the
  row (its \<open>data-ticker\<close> attribute, or an alert key found in the row text or in the name
  of the PDF file), if any. A page without a \<open>td.date\<close> cell has no such row. Parsing the
  page and resolving the link are taken to succeed.
\<close>

record news_row =
  dateText :: string
  pdfUrl :: "string option"
  rowTicker :: "string option"

text \<open>
  What the outside world does during one call: the page served for an address (or the
  error of \<open>fetchHTML\<close>), today's date in Belgrade, whether the download of the PDF
  succeeds, whether a mail transport is configured, whether the transport accepts the
  mail, and whether the seen file can be written.
\<close>

record news_world =
  fetchHTML :: "string \<Rightarrow> string + news_row option"
  today :: "nat \<times> nat \<times> nat"
  download_ok :: bool
  smtp_configured :: bool
  send_ok :: bool
  write_ok :: bool

datatype news_event =
    Download string bool
  | EmailSent "string list" string
  | EmailFailed "string list" string
  | WouldSend "string list" string
  | NoRecipients string
  | WriteSeen "string list" bool

text \<open>\<open>seenSet.add(x)\<close> on a set kept in insertion order, as \<open>Array.from(seenSet)\<close>
  lists it.\<close>

definition seen_add :: "string \<Rightarrow> string list \<Rightarrow> string list" where
  "seen_add x seenSet = (if x \<in> set seenSet then seenSet else seenSet @ [x])"

text \<open>\<open>ticker ? (alerts[ticker] || []) : []\<close>\<close>

definition recipients_of :: "(string \<rightharpoonup> string list) \<Rightarrow> string option \<Rightarrow> string list" where
  "recipients_of alerts ticker =
     (case ticker of
        None \<Rightarrow> []
      | Some t \<Rightarrow> (case alerts t of None \<Rightarrow> [] | Some rs \<Rightarrow> rs))"

text \<open>
  \<open>processFirstItemIfToday(alerts, seenSet, url)\<close>: the seen-set afterwards and the
  events in order. Every error inside the \<open>try\<close> block ends the call in its \<open>catch\<close>
  block; \<open>extractTextFromPDFBuffer\<close> and \<open>fetchPriceForTicker\<close> catch their own errors
  and only shape the mail body.
\<close>

definition processFirstItemIfToday ::
  "(string \<rightharpoonup> string list) \<Rightarrow> string list \<Rightarrow> string \<Rightarrow> news_world
   \<Rightarrow> string list \<times> news_event list" where
  "processFirstItemIfToday alerts seenSet url w =
     (case fetchHTML w url of
        Inl err \<Rightarrow> (seenSet, [])
      | Inr None \<Rightarrow> (seenSet, [])
      | Inr (Some row) \<Rightarrow>
          (case parseDateFromTd (js_trim (dateText row)) of
             None \<Rightarrow> (seenSet, [])
           | Some parsedDate \<Rightarrow>
               if parsedDate \<noteq> today w then (seenSet, [])
               else
                 (case pdfUrl row of
                    None \<Rightarrow> (seenSet, [])
                  | Some u \<Rightarrow>
                      if u \<in> set seenSet then (seenSet, [])
                      else if \<not> download_ok w then (seenSet, [Download u False])
                      else
                        let recipients = recipients_of alerts (rowTicker row)
                        in if recipients = [] then
                             (seen_add u seenSet,
                              [Download u True, WriteSeen (seen_add u seenSet) (write_ok w)] @
                              (if write_ok w then [NoRecipients u] else []))
                           else if \<not> smtp_configured w then
                             (seen_add u seenSet,
                              [Download u True, WouldSend recipients u,
                               WriteSeen (seen_add u seenSet) (write_ok w)])
                           else if send_ok w then
                             (seen_add u seenSet,
                              [Download u True, EmailSent recipients u,
                               WriteSeen (seen_add u seenSet) (write_ok w)])
                           else (seenSet, [Download u True, EmailFailed recipients u]))))"

text \<open>An example: the row of 26.09.2025 from the header comment of the tracker, on that
  day, with one recipient for its ticker and everything working.\<close>

definition example_row :: news_row where
  "example_row =
     \<lparr>dateText = ''26.09.2025.'',
      pdfUrl = Some ''https://www.belex.rs/data/2025/09/00143497.pdf'',
      rowTicker = Some ''JESV''\<rparr>"

definition example_world :: news_world where
  "example_world =
     \<lparr>fetchHTML = (\<lambda>url. Inr (Some example_row)), today = (26, 9, 2025), download_ok = True,
      smtp_configured = True, send_ok = True, write_ok = True\<rparr>"

section \<open>Locating the price (functions.improved.cjs, autodetectPriceFromPage and fetchPriceForTicker)\<close>

text \<open>
  The loaded page, as the locator sees it: for each of the three XPath queries of
  \<open>autodetectPriceFromPage\<close> the matched elements in document order, each with its
  \<open>textContent\<close> (or \<open>None\<close> when \<open>page.evaluate\<close> throws for it), or \<open>None\<close> for the
  query when \<open>page.$x\<close> throws; and the text \<open>document.body.innerText || ''\<close>.
\<close>

record document =
  xpathRow :: "string option list option"
  xpathLabelNext :: "string option list option"
  xpathContainer :: "string option list option"
  body :: string

text \<open>
  The \<open>for\<close> loop over the elements of one query: the first text from which
  \<open>extractNumberFromString\<close> gets a number ends the whole search. An exception leaves the
  loop for the empty \<open>catch\<close> block of the query, and the next query is tried.
\<close>

fun try_elements :: "string option list \<Rightarrow> jsnum option" where
  "try_elements [] = None"
| "try_elements (None # els) = None"
| "try_elements (Some t # els) =
     (let num = extractNumberFromString (js_trim t)
      in if num \<noteq> NaN then Some num else try_elements els)"

definition try_query :: "string option list option \<Rightarrow> jsnum option" where
  "try_query r = (case r of None \<Rightarrow> None | Some els \<Rightarrow> try_elements els)"

definition autodetectPriceFromPage :: "document \<Rightarrow> jsnum option" where
  "autodetectPriceFromPage d =
     (case try_query (xpathRow d) of
        Some num \<Rightarrow> Some num
      | None \<Rightarrow>
          (case try_query (xpathLabelNext d) of
             Some num \<Rightarrow> Some num
           | None \<Rightarrow>
               (case try_query (xpathContainer d) of
                  Some num \<Rightarrow> Some num
                | None \<Rightarrow> None)))"

text \<open>
  \<open>/([0-9]+[.,][0-9]{1,6})/\<close> at the start of a string: all the digits there, a dot or
  comma, and up to six of the digits that follow, at least one. Taking fewer digits
  before the separator cannot help, so one attempt per position decides.
\<close>

definition num_token_at :: "string \<Rightarrow> string option" where
  "num_token_at s =
     (let d1 = takeWhile is_digit s; r = dropWhile is_digit s
      in if d1 = [] then None
         else (case r of
                 [] \<Rightarrow> None
               | c # r' \<Rightarrow>
                   let d2 = take 6 (takeWhile is_digit r')
                   in if (c = CHR ''.'' \<or> c = CHR '','') \<and> d2 \<noteq> [] then Some (d1 @ [c] @ d2)
                      else None))"

fun first_num_token :: "string \<Rightarrow> string option" where
  "first_num_token [] = None"
| "first_num_token (c # cs) =
     (case num_token_at (c # cs) of Some m \<Rightarrow> Some m | None \<Rightarrow> first_num_token cs)"

text \<open>Matching a letter without regard to case, for the ASCII letters.\<close>

definition ascii_lower :: "char \<Rightarrow> char" where
  "ascii_lower c =
     (case map_of (zip ''ABCDEFGHIJKLMNOPQRSTUVWXYZ'' ''abcdefghijklmnopqrstuvwxyz'') c of
        None \<Rightarrow> c
      | Some l \<Rightarrow> l)"

definition starts_with_ci :: "string \<Rightarrow> string \<Rightarrow> bool" where
  "starts_with_ci s p = starts_with (map ascii_lower s) p"

text \<open>
  \<open>/(?:Price|Cena)[^\d\n\r]{0,30}([0-9]+[.,][0-9]{1,6})/i\<close> at the start of a string.
  The number must begin at the first digit after the label, and what lies between, at
  most 30 characters, must hold no line break.
\<close>

definition near_at :: "string \<Rightarrow> string option" where
  "near_at s =
     (let rest = (if starts_with_ci s ''price'' then Some (drop 5 s)
                  else if starts_with_ci s ''cena'' then Some (drop 4 s) else None)
      in (case rest of
            None \<Rightarrow> None
          | Some r \<Rightarrow>
              let gap = takeWhile (\<lambda>c. \<not> is_digit c \<and> c \<noteq> CHR 0x0A \<and> c \<noteq> CHR 0x0D) r
              in if length gap \<le> 30 then num_token_at (drop (length gap) r) else None))"

fun near_match :: "string \<Rightarrow> string option" where
  "near_match [] = None"
| "near_match (c # cs) =
     (case near_at (c # cs) of Some m \<Rightarrow> Some m | None \<Rightarrow> near_match cs)"

text \<open>
  \<open>fetchPriceForTicker\<close> when no selector is configured, from the point where the page is
  loaded: \<open>Inr\<close> the price returned, \<open>Inl\<close> the message of the error thrown.
\<close>

definition fetchPriceForTicker :: "string \<Rightarrow> document \<Rightarrow> string + jsnum" where
  "fetchPriceForTicker ticker d =
     (case autodetectPriceFromPage d of
        Some auto \<Rightarrow> Inr auto
      | None \<Rightarrow>
          let val = (case near_match (body d) of
                       None \<Rightarrow> NaN
                     | Some m \<Rightarrow> parseFloat (replace_first (CHR '','') ''.'' m))
          in if val \<noteq> NaN then Inr val
             else (case first_num_token (body d) of
                     Some m2 \<Rightarrow> Inr (parseFloat (replace_first (CHR '','') ''.'' m2))
                   | None \<Rightarrow>
                       Inl (''Could not extract price for '' @ ticker @
                            '' (no selector matched and fallback failed)'')))"

text \<open>The locator as the specification words it: the five strategies in order, every
  candidate tested with the numeric extraction engine, absence when all fail.\<close>

definition locate_spec :: "document \<Rightarrow> jsnum option" where
  "locate_spec d =
     (case autodetectPriceFromPage d of
        Some num \<Rightarrow> Some num
      | None \<Rightarrow>
          (case near_match (body d) of
             Some m \<Rightarrow> (if extractNumberFromString m \<noteq> NaN then Some (extractNumberFromString m) else None)
           | None \<Rightarrow>
               (case first_num_token (body d) of
                  Some m2 \<Rightarrow>
                    (if extractNumberFromString m2 \<noteq> NaN then Some (extractNumberFromString m2)
                     else None)
                | None \<Rightarrow> None)))"

section \<open>Properties of number extraction\<close>

lemmas extract_eval =
  js_trim_def is_space_def is_digit_def match_number_def nat_of_digits_def
  digit_val_def test_thousands_def includes_dot_def split_dot_second_def below50_def

lemma set_js_trim: "set (js_trim s) \<subseteq> set s"
  unfolding js_trim_def by (auto dest!: set_dropWhileD)

lemma collapse_ws_no_digit:
  "\<forall>c\<in>set s. \<not> is_digit c \<Longrightarrow> \<forall>c\<in>set (collapse_ws s). \<not> is_digit c"
  by (induction s rule: collapse_ws.induct) (auto simp: is_digit_def)

lemma replace_first_no_digit:
  "\<forall>c\<in>set s. \<not> is_digit c \<Longrightarrow> \<forall>c\<in>set r. \<not> is_digit c \<Longrightarrow>
   \<forall>c\<in>set (replace_first x r s). \<not> is_digit c"
  by (induction s) auto

lemma match_number_no_digit:
  assumes "\<forall>c\<in>set s. \<not> is_digit c"
  shows "match_number s = None"
proof -
  have "dropWhile (\<lambda>c. \<not> is_digit c) s = []"
    using assms by simp
  then show ?thesis by (simp add: match_number_def)
qed

lemma extract_no_digit:
  assumes "\<forall>c\<in>set txt. \<not> is_digit c"
  shows "extractNumberFromString txt = NaN"
proof -
  have "\<forall>c\<in>set (js_trim txt). \<not> is_digit c"
    using assms set_js_trim by blast
  then have "\<forall>c\<in>set (collapse_ws (js_trim txt)). \<not> is_digit c"
    by (rule collapse_ws_no_digit)
  then have "\<forall>c\<in>set (replace_first (CHR '','') ''.'' (collapse_ws (js_trim txt))). \<not> is_digit c"
    by (rule replace_first_no_digit) (simp add: is_digit_def)
  then have "match_number (replace_first (CHR '','') ''.'' (collapse_ws (js_trim txt))) = None"
    by (rule match_number_no_digit)
  then show ?thesis
    by (simp add: extractNumberFromString_def)
qed







lemma round_half_even_down:
  assumes "of_int n \<le> x" and "x < of_int n + 1 / 2"
  shows "round_half_even x = n"
proof -
  have "\<lfloor>x\<rfloor> = n" using assms by (intro floor_unique) simp_all
  then show ?thesis using assms by (simp add: round_half_even_def Let_def)
qed

lemma to_double_pos:
  assumes "0 < q" and "binade q = b" and "- 1074 \<le> b - 52"
    and "round_half_even (q / pow2 (b - 52)) = m"
    and "of_int m * pow2 (b - 52) < pow2 1024"
  shows "to_double q = Num (of_int m * pow2 (b - 52))"
proof -
  have "max (binade \<bar>q\<bar> - 52) (- 1074) = b - 52" using assms(1-3) by simp
  then show ?thesis
    using assms(1,4,5) by (simp add: to_double_def Let_def)
qed



lemma parse_5_002: "parseFloat ''5.002'' = Num (5631751334026805 / 1125899906842624)"
proof -
  have d: "parseFloat ''5.002'' = to_double (2501 / 500)"
    by (simp add: parseFloat_def is_digit_def nat_of_digits_def digit_val_def)
  have b: "binade (2501 / 500) = 2"
    by (simp add: binade_def halvings.simps)
  have r: "round_half_even (2501 / 500 / pow2 (2 - 52)) = 5631751334026805"
    by (rule round_half_even_down) (simp_all add: pow2_def)
  have "to_double (2501 / 500) = Num (of_int 5631751334026805 * pow2 (2 - 52))"
    by (rule to_double_pos[OF _ b _ r]) (simp_all add: pow2_def)
  then show ?thesis using d by (simp add: pow2_def)
qed



















lemma parse_5002: "parseFloat ''5002'' = Num 5002"
proof -
  have d: "parseFloat ''5002'' = to_double 5002"
    by (simp add: parseFloat_def is_digit_def nat_of_digits_def digit_val_def)
  have b: "binade 5002 = 12"
    by (simp add: binade_def halvings.simps)
  have r: "round_half_even (5002 / pow2 (12 - 52)) = 5499757162135552"
    by (rule round_half_even_down) (simp_all add: pow2_def)
  have "to_double 5002 = Num (of_int 5499757162135552 * pow2 (12 - 52))"
    by (rule to_double_pos[OF _ b _ r]) (simp_all add: pow2_def)
  then show ?thesis using d by (simp add: pow2_def)
qed

lemma to_double_not_NaN: "to_double q \<noteq> NaN"
  by (simp add: to_double_def Let_def)


lemma parseFloat_digit_start:
  assumes "s \<noteq> []" and "is_digit (hd s)"
  shows "parseFloat s \<noteq> NaN"
proof -
  from assms obtain c cs where s: "s = c # cs" and c: "is_digit c"
    by (cases s) auto
  then have "takeWhile is_digit s \<noteq> []" by simp
  then show ?thesis by (simp add: parseFloat_def Let_def to_double_not_NaN)
qed











section \<open>Properties of fetching with retries\<close>

lemma starts_with_append: "starts_with (p @ s) p"
  by (induction p) auto

lemma str_includes_prefix: "str_includes (p @ s) p"
proof (cases "p @ s")
  case Nil
  then show ?thesis by simp
next
  case (Cons c cs)
  have "starts_with (p @ s) p" by (rule starts_with_append)
  then show ?thesis unfolding Cons by simp
qed

lemma http_error_transient: "isTransient (http_error url st)"
proof -
  have "message (http_error url st) = ''fetch'' @ ('' '' @ url @ '' failed '' @ show_nat st)"
    by (simp add: http_error_def)
  then have "str_includes (message (http_error url st)) ''fetch''"
    using str_includes_prefix by metis
  then show ?thesis by (simp add: isTransient_def)
qed

lemma fetchLoop_ok:
  "attempt \<le> retries \<Longrightarrow> fetcher attempt = Responded st \<Longrightarrow> res_ok st \<Longrightarrow>
   fetchLoop fetcher rnd url retries attempt lastErr = (Resolved st, [Fetch attempt])"
  by (subst fetchLoop.simps) simp

lemma fetchLoop_stop:
  "attempt \<le> retries \<Longrightarrow> failure_of url (fetcher attempt) = Some e \<Longrightarrow>
   \<not> isTransient e \<or> attempt = retries \<Longrightarrow>
   fetchLoop fetcher rnd url retries attempt lastErr = (Threw e, [Fetch attempt])"
  by (subst fetchLoop.simps)
     (auto simp: failure_of_def Let_def split: fetch_outcome.splits if_splits)

lemma fetchLoop_retry:
  "attempt < retries \<Longrightarrow> failure_of url (fetcher attempt) = Some e \<Longrightarrow> isTransient e \<Longrightarrow>
   fetchLoop fetcher rnd url retries attempt lastErr =
     (fst (fetchLoop fetcher rnd url retries (Suc attempt) (Some e)),
      Fetch attempt # Sleep (backoffBase attempt + jitter (rnd attempt)) #
        snd (fetchLoop fetcher rnd url retries (Suc attempt) (Some e)))"
  by (subst fetchLoop.simps)
     (auto simp: failure_of_def Let_def split: fetch_outcome.splits if_splits prod.splits)

lemma fetchLoop_transient_run:
  assumes "\<forall>j. a \<le> j \<and> j < k \<longrightarrow> (\<exists>e. failure_of url (fetcher j) = Some e \<and> isTransient e)"
    and "k \<le> retries" and "a < k"
  shows "fetchLoop fetcher rnd url retries a lastErr =
     (fst (fetchLoop fetcher rnd url retries k (failure_of url (fetcher (k - 1)))),
      retry_trace rnd a k @
        snd (fetchLoop fetcher rnd url retries k (failure_of url (fetcher (k - 1)))))"
  using assms
proof (induction "k - a" arbitrary: a lastErr)
  case 0
  then show ?case by simp
next
  case (Suc n)
  from Suc.prems obtain e where e: "failure_of url (fetcher a) = Some e" "isTransient e"
    by (metis order_refl)
  have step: "fetchLoop fetcher rnd url retries a lastErr =
     (fst (fetchLoop fetcher rnd url retries (Suc a) (Some e)),
      Fetch a # Sleep (backoffBase a + jitter (rnd a)) #
        snd (fetchLoop fetcher rnd url retries (Suc a) (Some e)))"
    using Suc.prems e by (intro fetchLoop_retry) auto
  show ?case
  proof (cases "Suc a = k")
    case True
    then have "k - 1 = a" by simp
    moreover have "retry_trace rnd a k = [Fetch a, Sleep (backoffBase a + jitter (rnd a))]"
      using True by (auto simp: retry_trace_def)
    ultimately show ?thesis using step True e by simp
  next
    case False
    then have lt: "Suc a < k" using Suc.prems by simp
    have n: "n = k - Suc a" using Suc.hyps by simp
    have all: "\<forall>j. Suc a \<le> j \<and> j < k \<longrightarrow> (\<exists>e. failure_of url (fetcher j) = Some e \<and> isTransient e)"
      using Suc.prems by auto
    have ih: "fetchLoop fetcher rnd url retries (Suc a) (Some e) =
     (fst (fetchLoop fetcher rnd url retries k (failure_of url (fetcher (k - 1)))),
      retry_trace rnd (Suc a) k @
        snd (fetchLoop fetcher rnd url retries k (failure_of url (fetcher (k - 1)))))"
      using Suc.hyps(1)[OF n all Suc.prems(2) lt] .
    have "retry_trace rnd a k =
        Fetch a # Sleep (backoffBase a + jitter (rnd a)) # retry_trace rnd (Suc a) k"
      using Suc.prems by (simp add: retry_trace_def upt_conv_Cons)
    then show ?thesis using step ih by simp
  qed
qed

lemma jitter_bound: "0 \<le> r \<Longrightarrow> r < 1 \<Longrightarrow> jitter r < 500"
proof -
  assume "0 \<le> r" "r < 1"
  then have "r * 500 < 500" by simp
  then have "\<lfloor>r * 500\<rfloor> < 500" by (simp add: floor_less_iff)
  then show ?thesis unfolding jitter_def by linarith
qed

lemma attempts_retry_trace: "attempts (retry_trace rnd a k) = k - a"
  unfolding attempts_def retry_trace_def
  by (induction k) (auto)


lemma fetchWithRetries_all_transient:
  assumes "1 \<le> retries"
    and "\<forall>j. 1 \<le> j \<and> j \<le> retries \<longrightarrow> (\<exists>e. failure_of url (fetcher j) = Some e \<and> isTransient e)"
    and "failure_of url (fetcher retries) = Some err"
  shows "fetchWithRetries fetcher rnd url retries =
           (Threw err, retry_trace rnd 1 retries @ [Fetch retries])"
proof (cases "retries = 1")
  case True
  then show ?thesis
    using assms(3) by (simp add: fetchWithRetries_def fetchLoop_stop retry_trace_def)
next
  case False
  then have lt: "1 < retries" using assms(1) by simp
  have run: "fetchLoop fetcher rnd url retries 1 None =
     (fst (fetchLoop fetcher rnd url retries retries (failure_of url (fetcher (retries - 1)))),
      retry_trace rnd 1 retries @
        snd (fetchLoop fetcher rnd url retries retries (failure_of url (fetcher (retries - 1)))))"
    using assms(2) lt by (intro fetchLoop_transient_run) auto
  have "fetchLoop fetcher rnd url retries retries (failure_of url (fetcher (retries - 1))) =
          (Threw err, [Fetch retries])"
    using assms(3) by (intro fetchLoop_stop) auto
  with run show ?thesis by (simp add: fetchWithRetries_def)
qed

lemma fetchWithRetries_stops_at:
  assumes "1 \<le> k" and "k \<le> retries"
    and "\<forall>j. 1 \<le> j \<and> j < k \<longrightarrow> (\<exists>e. failure_of url (fetcher j) = Some e \<and> isTransient e)"
    and "failure_of url (fetcher k) = Some err" and "\<not> isTransient err"
  shows "fetchWithRetries fetcher rnd url retries = (Threw err, retry_trace rnd 1 k @ [Fetch k])"
proof (cases "k = 1")
  case True
  then show ?thesis
    using assms by (simp add: fetchWithRetries_def fetchLoop_stop retry_trace_def)
next
  case False
  then have lt: "1 < k" using assms(1) by simp
  have run: "fetchLoop fetcher rnd url retries 1 None =
     (fst (fetchLoop fetcher rnd url retries k (failure_of url (fetcher (k - 1)))),
      retry_trace rnd 1 k @
        snd (fetchLoop fetcher rnd url retries k (failure_of url (fetcher (k - 1)))))"
    using assms(2,3) lt by (intro fetchLoop_transient_run) auto
  have "fetchLoop fetcher rnd url retries k (failure_of url (fetcher (k - 1))) =
          (Threw err, [Fetch k])"
    using assms(2,4,5) by (intro fetchLoop_stop) auto
  with run show ?thesis by (simp add: fetchWithRetries_def)
qed

text \<open>
  C2 (as amended). Every response that is not ok, a 4xx as much as a 5xx, is classified
  as transient, because the message of the error made for it starts with \<open>fetch\<close>. When
  the attempts before the \<open>k\<close>-th fail transiently and the \<open>k\<close>-th fails with an error that
  is not transient, the call throws that error at once: the trace ends with the \<open>k\<close>-th
  request, with no delay and no request after it.
\<close>

theorem fetchWithRetries_permanent_failure:
  assumes "1 \<le> k" and "k \<le> retries"
    and "\<forall>j. 1 \<le> j \<and> j < k \<longrightarrow> (\<exists>e. failure_of url (fetcher j) = Some e \<and> isTransient e)"
    and "failure_of url (fetcher k) = Some err" and "\<not> isTransient err"
  shows "fetchWithRetries fetcher rnd url retries = (Threw err, retry_trace rnd 1 k @ [Fetch k]) \<and>
         (\<forall>u st. isTransient (http_error u st))"
  using fetchWithRetries_stops_at[OF assms] http_error_transient by simp

theorem fetchWithRetries_permanent_failure_witness:
  "fetchWithRetries (\<lambda>_. Rejected \<lparr>code = None, message = ''Invalid URL''\<rparr>) (\<lambda>_. 0) ''x'' 3 =
     (Threw \<lparr>code = None, message = ''Invalid URL''\<rparr>, [Fetch 1])"
  using fetchWithRetries_permanent_failure
    [of 1 3 "''x''" "\<lambda>_. Rejected \<lparr>code = None, message = ''Invalid URL''\<rparr>"
        "\<lparr>code = None, message = ''Invalid URL''\<rparr>" "\<lambda>_. 0"]
  by (simp add: failure_of_def isTransient_def retry_trace_def)

text \<open>
  C2 as stated fails: a 404 response is retried, with the backoff delays, until the
  retries are used up.
\<close>

theorem fetchWithRetries_404_retried:
  "fetchWithRetries (\<lambda>_. Responded 404) (\<lambda>_. 0) ''http://x/'' 3 =
     (Threw (http_error ''http://x/'' 404), [Fetch 1, Sleep 1000, Fetch 2, Sleep 2000, Fetch 3])"
proof -
  have "fetchWithRetries (\<lambda>_. Responded 404) (\<lambda>_. 0) ''http://x/'' 3 =
     (Threw (http_error ''http://x/'' 404), retry_trace (\<lambda>_. 0) 1 3 @ [Fetch 3])"
    by (rule fetchWithRetries_all_transient)
       (simp_all add: failure_of_def res_ok_def http_error_transient)
  moreover have "[1..<3] = [1, 2::nat]"
    by (simp add: upt_rec)
  ultimately show ?thesis
    by (simp add: retry_trace_def backoffBase_def jitter_def)
qed

text \<open>
  C3. When each of the \<open>retries\<close> attempts fails transiently, the delay slept after the
  \<open>k\<close>-th failure is \<open>min(10000, 1000 * 2^(k-1))\<close> plus a jitter below 500, the call makes
  exactly \<open>retries\<close> requests and throws the error of the last one.
\<close>

theorem fetchWithRetries_backoff_exhaustion:
  assumes "1 \<le> retries"
    and "\<forall>j. 1 \<le> j \<and> j \<le> retries \<longrightarrow>
           failure_of url (fetcher j) = Some (errs j) \<and> isTransient (errs j)"
    and "\<forall>j. 0 \<le> rnd j \<and> rnd j < 1"
  shows "fetchWithRetries fetcher rnd url retries =
           (Threw (errs retries),
            concat (map (\<lambda>k. [Fetch k, Sleep (min 10000 (1000 * 2 ^ (k - 1)) + jitter (rnd k))])
                        [1..<retries]) @ [Fetch retries]) \<and>
         attempts (snd (fetchWithRetries fetcher rnd url retries)) = retries \<and>
         (\<forall>k. jitter (rnd k) < 500)"
proof -
  have all: "\<forall>j. 1 \<le> j \<and> j \<le> retries \<longrightarrow> (\<exists>e. failure_of url (fetcher j) = Some e \<and> isTransient e)"
    using assms(2) by blast
  have last: "failure_of url (fetcher retries) = Some (errs retries)"
    using assms(1,2) by simp
  have run: "fetchWithRetries fetcher rnd url retries =
           (Threw (errs retries), retry_trace rnd 1 retries @ [Fetch retries])"
    using fetchWithRetries_all_transient[OF assms(1) all last] .
  have tr: "retry_trace rnd 1 retries =
      concat (map (\<lambda>k. [Fetch k, Sleep (min 10000 (1000 * 2 ^ (k - 1)) + jitter (rnd k))])
                  [1..<retries])"
    by (simp add: retry_trace_def backoffBase_def min.commute)
  have cnt: "attempts (retry_trace rnd 1 retries @ [Fetch retries]) = retries"
    using assms(1) attempts_retry_trace[of rnd 1 retries] by (simp add: attempts_def)
  have jit: "\<forall>k. jitter (rnd k) < 500"
    using assms(3) jitter_bound by blast
  show ?thesis using run tr cnt jit by simp
qed

theorem fetchWithRetries_backoff_exhaustion_witness:
  "fetchWithRetries (\<lambda>_. Responded 503) (\<lambda>_. 1 / 2) ''u'' 3 =
     (Threw (http_error ''u'' 503), [Fetch 1, Sleep 1250, Fetch 2, Sleep 2250, Fetch 3]) \<and>
   jitter (1 / 2) < 500"
proof -
  have "[1..<3] = [1, 2::nat]"
    by (simp add: upt_rec)
  then show ?thesis
    using fetchWithRetries_backoff_exhaustion
      [of 3 "''u''" "\<lambda>_. Responded 503" "\<lambda>_. http_error ''u'' 503" "\<lambda>_. 1 / 2"]
    by (simp add: failure_of_def res_ok_def http_error_transient jitter_def)
qed

section \<open>Properties of the price alerts\<close>





lemma pctChange_finite: "pctChange a b \<noteq> Some NaN \<and> pctChange a b \<noteq> Some (Infty s)"
  by (auto simp: pctChange_def js_div_def js_times_def split: option.splits)

lemma body_no_prior:
  assumes "fetched w = Inr p"
    and "pricesState t = None \<or> (\<exists>e. pricesState t = Some e \<and> (price e = None \<or> price e = Some 0))"
  shows "checkTickersAndAlert_body up down receiver file t w pricesState =
     (Checked p (case pricesState t of None \<Rightarrow> None | Some e \<Rightarrow> price e) None,
      pricesState(t \<mapsto> \<lparr>price = Some p, updated = now w\<rparr>),
      [SavePrices (pricesState(t \<mapsto> \<lparr>price = Some p, updated = now w\<rparr>)) file])"
  using assms
  by (auto simp: checkTickersAndAlert_body_def pctChange_def Let_def split: option.splits)










text \<open>
  C10. \<open>pctChange\<close> returns \<open>null\<close> when the old price is \<open>null\<close>, the new price is
  \<open>null\<close> or the old price is 0, and never returns the \<open>NaN\<close> or infinity of a division
  by zero. For a ticker whose prior price is missing or 0, the loop body sends no mail and
  records the fetched price and the time.
\<close>

theorem pctChange_null_guard:
  "(\<forall>b. pctChange None b = None) \<and> (\<forall>a. pctChange a None = None) \<and>
   (\<forall>b. pctChange (Some 0) b = None) \<and>
   (\<forall>a b s. pctChange a b \<noteq> Some NaN \<and> pctChange a b \<noteq> Some (Infty s)) \<and>
   (\<forall>pricesState t w p up down receiver file.
      fetched w = Inr p \<and>
      (pricesState t = None \<or>
       (\<exists>e. pricesState t = Some e \<and> (price e = None \<or> price e = Some 0))) \<longrightarrow>
      checkTickersAndAlert_body up down receiver file t w pricesState =
        (Checked p (case pricesState t of None \<Rightarrow> None | Some e \<Rightarrow> price e) None,
         pricesState(t \<mapsto> \<lparr>price = Some p, updated = now w\<rparr>),
         [SavePrices (pricesState(t \<mapsto> \<lparr>price = Some p, updated = now w\<rparr>)) file]))"
proof -
  have "\<forall>b. pctChange None b = None" "\<forall>a. pctChange a None = None"
    "\<forall>b. pctChange (Some 0) b = None"
    by (simp_all add: pctChange_def split: option.splits)
  then show ?thesis
    using pctChange_finite body_no_prior by blast
qed

theorem pctChange_null_guard_witness:
  "checkTickersAndAlert_body 5 5 ''me@x'' ''prices.json'' ''NIIS''
     \<lparr>fetched = Inr 106, mail_error = None, now = ''t1''\<rparr>
     (Map.empty(''NIIS'' \<mapsto> \<lparr>price = Some 0, updated = ''t0''\<rparr>)) =
   (Checked 106 (Some 0) None,
    Map.empty(''NIIS'' \<mapsto> \<lparr>price = Some 106, updated = ''t1''\<rparr>),
    [SavePrices (Map.empty(''NIIS'' \<mapsto> \<lparr>price = Some 106, updated = ''t1''\<rparr>)) ''prices.json''])"
proof -
  have "checkTickersAndAlert_body 5 5 ''me@x'' ''prices.json'' ''NIIS''
     \<lparr>fetched = Inr 106, mail_error = None, now = ''t1''\<rparr>
     (Map.empty(''NIIS'' \<mapsto> \<lparr>price = Some 0, updated = ''t0''\<rparr>)) =
   (Checked 106
      (case (Map.empty(''NIIS'' \<mapsto> \<lparr>price = Some 0, updated = ''t0''\<rparr>)) ''NIIS'' of
         None \<Rightarrow> None | Some e \<Rightarrow> price e) None,
    (Map.empty(''NIIS'' \<mapsto> \<lparr>price = Some 0, updated = ''t0''\<rparr>))
      (''NIIS'' \<mapsto> \<lparr>price = Some 106, updated = now \<lparr>fetched = Inr 106, mail_error = None, now = ''t1''\<rparr>\<rparr>),
    [SavePrices ((Map.empty(''NIIS'' \<mapsto> \<lparr>price = Some 0, updated = ''t0''\<rparr>))
      (''NIIS'' \<mapsto> \<lparr>price = Some 106, updated = now \<lparr>fetched = Inr 106, mail_error = None, now = ''t1''\<rparr>\<rparr>))
       ''prices.json''])"
    using pctChange_null_guard by simp
  then show ?thesis by simp
qed

section \<open>Properties of the mailbox reconnects\<close>

lemma scheduleReconnect_step:
  assumes "\<not> stopped s" and "reconnectAttempts s < 10"
  shows "\<not> stopped (scheduleReconnect s) \<and>
         reconnectAttempts (scheduleReconnect s) = Suc (reconnectAttempts s) \<and>
         reconnectTimer (scheduleReconnect s) = Some (min 30000 (1000 * 2 ^ Suc (reconnectAttempts s)))"
  using assms by (simp add: scheduleReconnect_def MAX_RECONNECT_def Let_def)

lemma scheduleReconnect_cooldown:
  assumes "\<not> stopped s" and "reconnectAttempts s = 10"
  shows "\<not> stopped (scheduleReconnect s) \<and> reconnectAttempts (scheduleReconnect s) = 0 \<and>
         reconnectTimer (scheduleReconnect s) = Some 60000"
  using assms by (simp add: scheduleReconnect_def MAX_RECONNECT_def Let_def)

lemma scheduleReconnect_run:
  assumes "\<not> stopped s" and "reconnectAttempts s = 0"
  shows "k \<le> 10 \<Longrightarrow>
         \<not> stopped ((scheduleReconnect ^^ k) s) \<and>
         reconnectAttempts ((scheduleReconnect ^^ k) s) = k \<and>
         (1 \<le> k \<longrightarrow> reconnectTimer ((scheduleReconnect ^^ k) s) = Some (min 30000 (1000 * 2 ^ k)))"
proof (induction k)
  case 0
  then show ?case using assms by simp
next
  case (Suc k)
  then have ih: "\<not> stopped ((scheduleReconnect ^^ k) s)"
    "reconnectAttempts ((scheduleReconnect ^^ k) s) = k" and lt: "k < 10"
    by simp_all
  show ?case
    using scheduleReconnect_step[of "(scheduleReconnect ^^ k) s"] ih lt by simp
qed

lemma connect_resets:
  assumes "\<not> stopped s"
  shows "reconnectAttempts (connect True True s) = 0 \<and>
         reconnectTimer (scheduleReconnect (connect True True s)) = Some 2000 \<and>
         reconnectTimer (connect True False s) = Some 2000"
  using assms by (simp add: connect_def scheduleReconnect_def MAX_RECONNECT_def Let_def)

text \<open>
  C7. Counted from a state whose counter is 0, the \<open>k\<close>-th consecutive call of
  \<open>scheduleReconnect\<close> (for \<open>k\<close> from 1 to 10) sets a delay of
  \<open>min(30000, 2000 * 2^(k-1))\<close>, that is \<open>min(30000, 1000 * 2^k)\<close>; the eleventh sets the
  cooldown of 60000 and resets the counter to 0. A successful \<open>connect\<close> resets the counter
  to 0, so the next reconnect is scheduled with the first delay again.
\<close>

theorem scheduleReconnect_backoff:
  assumes "\<not> stopped s" and "reconnectAttempts s = 0"
  shows "(\<forall>k. 1 \<le> k \<and> k \<le> 10 \<longrightarrow>
            reconnectTimer ((scheduleReconnect ^^ k) s) = Some (min 30000 (2000 * 2 ^ (k - 1))) \<and>
            reconnectAttempts ((scheduleReconnect ^^ k) s) = k) \<and>
         reconnectTimer ((scheduleReconnect ^^ 11) s) = Some 60000 \<and>
         reconnectAttempts ((scheduleReconnect ^^ 11) s) = 0 \<and>
         (\<forall>s'. \<not> stopped s' \<longrightarrow>
            reconnectAttempts (connect True True s') = 0 \<and>
            reconnectTimer (scheduleReconnect (connect True True s')) = Some 2000 \<and>
            reconnectTimer (connect True False s') = Some 2000)"
proof -
  have run: "\<forall>k. 1 \<le> k \<and> k \<le> 10 \<longrightarrow>
            reconnectTimer ((scheduleReconnect ^^ k) s) = Some (min 30000 (2000 * 2 ^ (k - 1))) \<and>
            reconnectAttempts ((scheduleReconnect ^^ k) s) = k"
  proof (intro allI impI)
    fix k :: nat
    assume k: "1 \<le> k \<and> k \<le> 10"
    then have "(1000::nat) * 2 ^ k = 2000 * 2 ^ (k - 1)"
      by (cases k) simp_all
    then show "reconnectTimer ((scheduleReconnect ^^ k) s) = Some (min 30000 (2000 * 2 ^ (k - 1))) \<and>
            reconnectAttempts ((scheduleReconnect ^^ k) s) = k"
      using scheduleReconnect_run[OF assms, of k] k by simp
  qed
  have ten: "\<not> stopped ((scheduleReconnect ^^ 10) s)"
    "reconnectAttempts ((scheduleReconnect ^^ 10) s) = 10"
    using scheduleReconnect_run[OF assms, of 10] by simp_all
  have "(scheduleReconnect ^^ 11) s = scheduleReconnect ((scheduleReconnect ^^ 10) s)"
    by (simp add: eval_nat_numeral)
  then have eleven: "reconnectTimer ((scheduleReconnect ^^ 11) s) = Some 60000"
    "reconnectAttempts ((scheduleReconnect ^^ 11) s) = 0"
    using scheduleReconnect_cooldown[OF ten] by simp_all
  show ?thesis using run eleven connect_resets by blast
qed

theorem scheduleReconnect_backoff_witness:
  "reconnectTimer ((scheduleReconnect ^^ 3)
      \<lparr>stopped = False, reconnectAttempts = 0, reconnectTimer = None, connected = True,
       polling = True\<rparr>) = Some 8000 \<and>
   reconnectTimer ((scheduleReconnect ^^ 5)
      \<lparr>stopped = False, reconnectAttempts = 0, reconnectTimer = None, connected = True,
       polling = True\<rparr>) = Some 30000 \<and>
   reconnectTimer ((scheduleReconnect ^^ 11)
      \<lparr>stopped = False, reconnectAttempts = 0, reconnectTimer = None, connected = True,
       polling = True\<rparr>) = Some 60000"
  using scheduleReconnect_backoff
    [of "\<lparr>stopped = False, reconnectAttempts = 0, reconnectTimer = None, connected = True,
         polling = True\<rparr>"]
  by (auto dest: spec[of _ 3] spec[of _ 5])

section \<open>Properties of the page pool\<close>

lemma getPage_pool_length:
  "length (pagePool st) \<le> c \<Longrightarrow> length (pagePool (snd (getPage l n st))) \<le> c"
  by (auto simp: getPage_def getPage_take_def ensureBrowser_def ensureBrowser_resume_def
      split: option.splits if_splits)

lemma releasePage_pool_length:
  "length (pagePool st) \<le> capacity om dm \<Longrightarrow>
   length (pagePool (releasePage p om dm g c st)) \<le> capacity om dm"
  by (auto simp: releasePage_def releasePage_enter_def releasePage_resume_def split: option.splits)

lemma run_op_pool_length:
  "length (pagePool st) \<le> capacity om dm \<Longrightarrow>
   length (pagePool (run_op om dm op st)) \<le> capacity om dm"
  by (cases op)
     (simp_all add: getPage_pool_length releasePage_pool_length closeBrowser_def
        closeBrowser_finally_def)

text \<open>Calls none of which overlaps another keep the free list within the capacity: the
  test of the length in \<open>releasePage\<close> is then still true when the page is pushed.\<close>

lemma run_ops_pool_length:
  "length (pagePool st) \<le> capacity om dm \<Longrightarrow>
   length (pagePool (run_ops om dm ops st)) \<le> capacity om dm"
  by (induction ops arbitrary: st) (simp_all add: run_op_pool_length)

lemma releasePage_full:
  assumes "capacity om dm \<le> length (pagePool st)"
  shows "pagePool (releasePage (Some pg) om dm g c st) = pagePool st \<and>
         pg \<in> set (closedPages (releasePage (Some pg) om dm g c st))"
  using assms by (simp add: releasePage_def releasePage_enter_def releasePage_resume_def)

lemma releasePage_room:
  assumes "length (pagePool st) < capacity om dm"
  shows "pagePool (releasePage (Some pg) om dm True c st) = pagePool st @ [pg] \<and>
         location (releasePage (Some pg) om dm True c st) pg = Blank \<and>
         closedPages (releasePage (Some pg) om dm True c st) = closedPages st"
    and "pagePool (releasePage (Some pg) om dm False c st) = pagePool st \<and>
         closedPages (releasePage (Some pg) om dm False c st) = closedPages st @ [pg]"
  using assms by (simp_all add: releasePage_def releasePage_enter_def releasePage_resume_def)

text \<open>An overlapping call finds the pool as the calls before it have left it: a release
  that waits for its navigation has not pushed yet.\<close>

lemma releasePage_enter_keeps_state:
  "fst (pool_step om dm (CallReleasePage p) (st, ws)) = st"
  by (simp split: option.splits)

text \<open>A call of \<open>releasePage\<close> that is resumed before any other call begins or resumes
  is the call that nothing overlaps.\<close>

lemma releasePage_alone:
  "fst (pool_run om dm [CallReleasePage p, Resume (length ws) g c] (st, ws)) =
   releasePage p om dm g c st"
  by (cases "releasePage_enter p om dm st") (simp_all add: releasePage_def nth_append)

lemmas pool_eval =
  initial_state_def capacity_def ensureBrowser_resume_def getPage_take_def
  releasePage_enter_def releasePage_resume_def closeBrowser_finally_def drop_nth_def

text \<open>
  C6 fails on the code. With the capacity 1 (\<open>PUPPETEER_MAX_PAGES=1\<close>) and two pages
  handed out, two calls of \<open>releasePage\<close> of which the second begins while the first
  awaits its navigation both find the free list shorter than the capacity, and both push
  their page: the free list holds two pages and no page was closed. With the default
  capacity 4 and five pages, five such calls leave five pages in the free list.
\<close>

theorem releasePage_overlap_exceeds_capacity:
  "capacity None 1 = 1 \<and>
   pagePool (fst (pool_run None 1
     [CallGetPage, Resume 0 True True, Resume 0 True True,
      CallGetPage, Resume 0 True True,
      CallReleasePage (Some 0), CallReleasePage (Some 1)] (initial_state, []))) = [] \<and>
   snd (pool_run None 1
     [CallGetPage, Resume 0 True True, Resume 0 True True,
      CallGetPage, Resume 0 True True,
      CallReleasePage (Some 0), CallReleasePage (Some 1)] (initial_state, [])) =
     [Releasing (AwaitGoto 0), Releasing (AwaitGoto 1)] \<and>
   pagePool (fst (pool_run None 1
     [CallGetPage, Resume 0 True True, Resume 0 True True,
      CallGetPage, Resume 0 True True,
      CallReleasePage (Some 0), CallReleasePage (Some 1),
      Resume 0 True True, Resume 0 True True] (initial_state, []))) = [0, 1] \<and>
   closedPages (fst (pool_run None 1
     [CallGetPage, Resume 0 True True, Resume 0 True True,
      CallGetPage, Resume 0 True True,
      CallReleasePage (Some 0), CallReleasePage (Some 1),
      Resume 0 True True, Resume 0 True True] (initial_state, []))) = [] \<and>
   capacity None 4 = 4 \<and>
   pagePool (fst (pool_run None 4
     [CallGetPage, Resume 0 True True, Resume 0 True True,
      CallGetPage, CallGetPage, CallGetPage, CallGetPage,
      Resume 0 True True, Resume 0 True True, Resume 0 True True, Resume 0 True True,
      CallReleasePage (Some 0), CallReleasePage (Some 1), CallReleasePage (Some 2),
      CallReleasePage (Some 3), CallReleasePage (Some 4),
      Resume 0 True True, Resume 0 True True, Resume 0 True True, Resume 0 True True,
      Resume 0 True True] (initial_state, []))) = [0, 1, 2, 3, 4]"
  by (simp add: pool_eval)

section \<open>Properties of the state file writes\<close>

lemma tmp_neq: "f @ ''.tmp'' \<noteq> f"
  by simp

lemma read_file_content_other:
  assumes "names fs p \<noteq> Some i"
  shows "read_file (fs\<lparr>content := (content fs)(i := s)\<rparr>) p = read_file fs p"
  using assms by (cases "names fs p") (simp_all add: read_file_def)

lemma open_w_tmp:
  assumes "read_file fs f = old" and "target_apart f fs"
    and "open_w (f @ ''.tmp'') fs = (i, fs1)"
  shows "read_file fs1 f = old \<and> target_apart f fs1 \<and> names fs1 (f @ ''.tmp'') = Some i \<and>
         content fs1 i = []"
proof (cases "names fs (f @ ''.tmp'')")
  case None
  then have fs1: "fs1 = fs\<lparr>names := (names fs)(f @ ''.tmp'' \<mapsto> next_file fs),
              content := (content fs)(next_file fs := []),
              next_file := Suc (next_file fs)\<rparr>" and i: "i = next_file fs"
    using assms(3) by (auto simp: open_w_def)
  show ?thesis
    using assms(1,2) unfolding fs1 i
    by (cases "names fs f") (auto simp: read_file_def target_apart_def)
next
  case (Some j)
  then have fs1: "fs1 = fs\<lparr>content := (content fs)(j := [])\<rparr>" and i: "i = j"
    using assms(3) by (auto simp: open_w_def)
  show ?thesis
    using assms(1,2) Some unfolding fs1 i
    by (cases "names fs f") (auto simp: read_file_def target_apart_def)
qed

lemma write_at_end:
  assumes "content fs i = take k doc" and "k < length doc"
  shows "content (write_at i k (doc ! k) fs) i = take (Suc k) doc"
  using assms by (simp add: write_at_def Let_def take_Suc_conv_app_nth min_def)

lemma write_at_other:
  assumes "names fs p \<noteq> Some i"
  shows "read_file (write_at i k c fs) p = read_file fs p"
    and "names (write_at i k c fs) = names fs"
    and "next_file (write_at i k c fs) = next_file fs"
  using assms by (simp_all add: write_at_def Let_def read_file_content_other)

lemma write_at_tmp:
  assumes "read_file fs f = old" and "target_apart f fs" and "names fs (f @ ''.tmp'') = Some i"
  shows "read_file (write_at i k c fs) f = old \<and> target_apart f (write_at i k c fs) \<and>
         names (write_at i k c fs) (f @ ''.tmp'') = Some i"
proof -
  have ne: "names fs f \<noteq> Some i"
    using assms(2,3) by (auto simp: target_apart_def split: option.splits)
  show ?thesis
    using assms write_at_other[OF ne, of k c]
    by (auto simp: target_apart_def split: option.splits)
qed

lemma rename_tmp:
  assumes "read_file fs (f @ ''.tmp'') = Some doc"
  shows "\<exists>fs1. fs_rename (f @ ''.tmp'') f fs = Some fs1 \<and> read_file fs1 f = Some doc \<and>
           names fs1 (f @ ''.tmp'') = None"
  using assms by (auto simp: fs_rename_def read_file_def split: option.splits)

lemma unlink_tmp:
  assumes "read_file fs f = old" and "target_apart f fs"
  shows "read_file (fs_unlink (f @ ''.tmp'') fs) f = old \<and>
         target_apart f (fs_unlink (f @ ''.tmp'') fs)"
  using assms by (auto simp: fs_unlink_def read_file_def target_apart_def split: option.splits)

lemma save_inv_target:
  "save_inv doc f old pc fs \<Longrightarrow> read_file fs f = old \<or> read_file fs f = Some doc"
  by (cases "(doc, f, old, pc, fs)" rule: save_inv.cases) auto

lemma savePrices_step_inv:
  assumes "save_inv doc f old pc fs" and "savePrices_step doc f ok pc fs = (pc1, fs1)"
  shows "save_inv doc f old pc1 fs1"
proof (cases pc)
  case (SaveWrite w)
  show ?thesis
  proof (cases w)
    case ToOpen
    show ?thesis
    proof (cases ok)
      case True
      obtain i fs2 where o: "open_w (f @ ''.tmp'') fs = (i, fs2)"
        by (cases "open_w (f @ ''.tmp'') fs")
      have "pc1 = SaveWrite (Writing i 0)" and "fs1 = fs2"
        using assms(2) SaveWrite ToOpen True o
        by (simp_all add: savePrices_step_def writeFile_step_def)
      then show ?thesis
        using open_w_tmp[OF _ _ o, of old] assms(1) SaveWrite ToOpen by simp
    next
      case False
      then have "pc1 = SaveCatch" and "fs1 = fs"
        using assms(2) SaveWrite ToOpen by (simp_all add: savePrices_step_def writeFile_step_def)
      then show ?thesis using assms(1) SaveWrite ToOpen by simp
    qed
  next
    case (Writing i k)
    have inv: "read_file fs f = old" "target_apart f fs" "names fs (f @ ''.tmp'') = Some i"
      "content fs i = take k doc"
      using assms(1) SaveWrite Writing by simp_all
    consider (full) "length doc \<le> k" | (go) "k < length doc" "ok" | (fail) "k < length doc" "\<not> ok"
      by fastforce
    then show ?thesis
    proof cases
      case full
      then have "pc1 = SaveRename" and "fs1 = fs"
        using assms(2) SaveWrite Writing by (simp_all add: savePrices_step_def writeFile_step_def)
      moreover have "read_file fs (f @ ''.tmp'') = Some doc"
        using inv(3,4) full by (simp add: read_file_def)
      ultimately show ?thesis using inv by simp
    next
      case go
      then have "pc1 = SaveWrite (Writing i (Suc k))" and "fs1 = write_at i k (doc ! k) fs"
        using assms(2) SaveWrite Writing by (simp_all add: savePrices_step_def writeFile_step_def)
      then show ?thesis
        using write_at_tmp[OF inv(1,2,3)] write_at_end[OF inv(4) go(1)] by simp
    next
      case fail
      then have "pc1 = SaveCatch" and "fs1 = fs"
        using assms(2) SaveWrite Writing by (simp_all add: savePrices_step_def writeFile_step_def)
      then show ?thesis using inv by simp
    qed
  next
    case Closed
    then have "pc1 = SaveRename" and "fs1 = fs"
      using assms(2) SaveWrite by (simp_all add: savePrices_step_def writeFile_step_def)
    then show ?thesis using assms(1) SaveWrite Closed by simp
  next
    case Failed
    then have "pc1 = SaveCatch" and "fs1 = fs"
      using assms(2) SaveWrite by (simp_all add: savePrices_step_def writeFile_step_def)
    then show ?thesis using assms(1) SaveWrite Failed by simp
  qed
next
  case SaveRename
  have inv: "read_file fs f = old" "target_apart f fs" "read_file fs (f @ ''.tmp'') = Some doc"
    using assms(1) SaveRename by simp_all
  show ?thesis
  proof (cases ok)
    case True
    obtain fs2 where r: "fs_rename (f @ ''.tmp'') f fs = Some fs2" "read_file fs2 f = Some doc"
      using rename_tmp[OF inv(3)] by blast
    then have "pc1 = SaveDone" and "fs1 = fs2"
      using assms(2) SaveRename True by (simp_all add: savePrices_step_def)
    then show ?thesis using r(2) by simp
  next
    case False
    then have "pc1 = SaveCatch" and "fs1 = fs"
      using assms(2) SaveRename by (simp_all add: savePrices_step_def)
    then show ?thesis using inv by simp
  qed
next
  case SaveCatch
  have inv: "read_file fs f = old" "target_apart f fs"
    using assms(1) SaveCatch by simp_all
  have "pc1 = SaveDone" and "fs1 = fs \<or> fs1 = fs_unlink (f @ ''.tmp'') fs"
    using assms(2) SaveCatch by (auto simp: savePrices_step_def Let_def split: if_splits)
  then show ?thesis using inv unlink_tmp[OF inv] by auto
next
  case SaveDone
  then have "pc1 = SaveDone" and "fs1 = fs"
    using assms(2) by (simp_all add: savePrices_step_def)
  then show ?thesis using assms(1) SaveDone by simp
qed

lemma savePrices_calls_lone:
  assumes "save_inv doc f old pc fs"
  shows "\<forall>s\<in>set (savePrices_calls [(doc, f)] sched [pc] fs).
           read_file s f = old \<or> read_file s f = Some doc"
  using assms
proof (induction sched arbitrary: pc fs)
  case Nil
  then show ?case using save_inv_target by simp
next
  case (Cons e sched)
  obtain i ok where e: "e = (i, ok)" by (cases e)
  have here: "read_file fs f = old \<or> read_file fs f = Some doc"
    using Cons.prems save_inv_target by blast
  show ?case
  proof (cases "i = 0")
    case True
    obtain pc1 fs1 where s: "savePrices_step doc f ok pc fs = (pc1, fs1)"
      by (cases "savePrices_step doc f ok pc fs")
    have "save_inv doc f old pc1 fs1"
      using savePrices_step_inv[OF Cons.prems s] .
    from Cons.IH[OF this] show ?thesis
      using here e True s by simp
  next
    case False
    then show ?thesis using here e Cons.IH[OF Cons.prems] by simp
  qed
qed

lemma savePrices_target:
  assumes "target_apart f fs" and "s \<in> set (savePrices doc f oks fs)"
  shows "read_file s f = read_file fs f \<or> read_file s f = Some doc"
proof -
  have "save_inv doc f (read_file fs f) (SaveWrite ToOpen) fs"
    using assms(1) by simp
  from savePrices_calls_lone[OF this] show ?thesis
    using assms(2) unfolding savePrices_def by blast
qed

lemma savePrices_finish:
  assumes "names fs (f @ ''.tmp'') = Some i" and "content fs i = take k doc"
    and "n = length doc - k" and "k \<le> length doc"
  shows "read_file (last (savePrices_calls [(doc, f)] (replicate (n + 2) (0, True))
             [SaveWrite (Writing i k)] fs)) f = Some doc \<and>
         names (last (savePrices_calls [(doc, f)] (replicate (n + 2) (0, True))
             [SaveWrite (Writing i k)] fs)) (f @ ''.tmp'') = None"
  using assms
proof (induction n arbitrary: k fs)
  case 0
  then have k: "length doc \<le> k" and c: "content fs i = doc" by simp_all
  have "read_file fs (f @ ''.tmp'') = Some doc"
    using "0.prems"(1) c by (simp add: read_file_def)
  from rename_tmp[OF this] obtain fs1 where
    r: "fs_rename (f @ ''.tmp'') f fs = Some fs1" "read_file fs1 f = Some doc"
       "names fs1 (f @ ''.tmp'') = None"
    by blast
  have "replicate (0 + 2) (0::nat, True) = [(0, True), (0, True)]"
    by (simp add: numeral_2_eq_2)
  then show ?case
    using k r by (simp add: savePrices_step_def writeFile_step_def)
next
  case (Suc n)
  then have k: "k < length doc" by simp
  let ?fs1 = "write_at i k (doc ! k) fs"
  have a: "names ?fs1 (f @ ''.tmp'') = Some i"
    using Suc.prems(1) by (simp add: write_at_def Let_def)
  have b: "content ?fs1 i = take (Suc k) doc"
    using write_at_end[OF Suc.prems(2) k] .
  have c: "n = length doc - Suc k" using Suc.prems(3) by simp
  have d: "Suc k \<le> length doc" using k by simp
  have "savePrices_step doc f True (SaveWrite (Writing i k)) fs = (SaveWrite (Writing i (Suc k)), ?fs1)"
    using k by (simp add: savePrices_step_def writeFile_step_def)
  then show ?case
    using Suc.IH[OF a b c d] by simp
qed

lemma savePrices_success:
  "read_file (last (savePrices doc f (replicate (length doc + 3) True) fs)) f = Some doc \<and>
   names (last (savePrices doc f (replicate (length doc + 3) True) fs)) (f @ ''.tmp'') = None"
proof -
  obtain i fs1 where o: "open_w (f @ ''.tmp'') fs = (i, fs1)"
    by (cases "open_w (f @ ''.tmp'') fs")
  have n: "names fs1 (f @ ''.tmp'') = Some i" and c: "content fs1 i = take 0 doc"
    using o by (auto simp: open_w_def split: option.splits)
  have s: "savePrices_step doc f True (SaveWrite ToOpen) fs = (SaveWrite (Writing i 0), fs1)"
    using o by (simp add: savePrices_step_def writeFile_step_def)
  have "replicate (length doc + 3) (0::nat, True) = (0, True) # replicate (length doc + 2) (0, True)"
    by (simp add: numeral_3_eq_3 numeral_2_eq_2)
  then show ?thesis
    unfolding savePrices_def
    using savePrices_finish[OF n c, of "length doc"] s by simp
qed

lemma writeFile_step_names:
  assumes "writeFile_step path doc ok pc fs = (pc1, fs1)" and "q \<noteq> path"
  shows "names fs1 q = names fs q"
  using assms
  by (cases pc)
     (auto simp: writeFile_step_def open_w_def write_at_def Let_def split: if_splits option.splits)

lemma writeJSON_from_names:
  assumes "s \<in> set (writeJSON_from filePath doc oks pc fs)" and "q \<noteq> filePath"
  shows "names s q = names fs q"
  using assms
proof (induction oks arbitrary: pc fs)
  case Nil
  then show ?case by simp
next
  case (Cons ok oks)
  obtain pc1 fs1 where w: "writeFile_step filePath doc ok pc fs = (pc1, fs1)"
    by (cases "writeFile_step filePath doc ok pc fs")
  from Cons.prems(1) have "s = fs \<or> s \<in> set (writeJSON_from filePath doc oks pc1 fs1)"
    using w by simp
  then show ?case
    using Cons.IH[OF _ Cons.prems(2)] writeFile_step_names[OF w Cons.prems(2)] by auto
qed

lemma writeJSON_direct:
  assumes "s \<in> set (writeJSON filePath doc oks fs)" and "q \<noteq> filePath"
  shows "names s q = names fs q"
  using assms writeJSON_from_names by (simp add: writeJSON_def)

lemmas files_eval =
  savePrices_def savePrices_step_def writeJSON_def writeFile_step_def open_w_def write_at_def
  fs_rename_def fs_unlink_def read_file_def Let_def

text \<open>
  Two calls of \<open>savePrices\<close> on one file that overlap share the temporary file. Here the
  first call has written its document \<open>{}\<close> and closed the file; the second opens the same
  temporary file, which truncates it, and writes the first character of its document
  \<open>[1]\<close>; the \<open>rename\<close> of the first call then puts that file, holding \<open>[\<close>, in place of the
  prices file.
\<close>

lemma savePrices_overlap_partial:
  "read_file (last (savePrices_calls
       [(''{}'', ''prices.json''), (''[1]'', ''prices.json'')]
       [(0, True), (0, True), (0, True), (0, True), (1, True), (1, True), (0, True)]
       [SaveWrite ToOpen, SaveWrite ToOpen]
       \<lparr>names = Map.empty(''prices.json'' \<mapsto> 0), content = (\<lambda>_. [])(0 := ''[]''),
        next_file = 1\<rparr>)) ''prices.json'' = Some ''[''"
  by (simp add: files_eval)

text \<open>
  C8 (as amended). While a call of \<open>savePrices\<close> that no other call overlaps runs, however
  its steps end, the target file holds either what it held before or the whole new
  document; when every step succeeds it holds the new document at the end and the
  temporary file is gone. \<open>writeJSON\<close>, which writes the seen-set, binds or removes no
  name but the target itself: there is no temporary file and no \<open>rename\<close>.
\<close>

theorem savePrices_atomic:
  "(target_apart f fs \<longrightarrow>
      (\<forall>s\<in>set (savePrices doc f oks fs). read_file s f = read_file fs f \<or> read_file s f = Some doc)) \<and>
   read_file (last (savePrices doc f (replicate (length doc + 3) True) fs)) f = Some doc \<and>
   names (last (savePrices doc f (replicate (length doc + 3) True) fs)) (f @ ''.tmp'') = None \<and>
   (\<forall>s\<in>set (writeJSON filePath doc oks fs). \<forall>q. q \<noteq> filePath \<longrightarrow> names s q = names fs q)"
  using savePrices_target savePrices_success writeJSON_direct by blast

theorem savePrices_atomic_witness:
  "target_apart ''prices.json''
     \<lparr>names = Map.empty(''prices.json'' \<mapsto> 0), content = (\<lambda>_. [])(0 := ''[]''), next_file = 1\<rparr> \<and>
   map (\<lambda>s. read_file s ''prices.json'')
     (savePrices ''{}'' ''prices.json'' [True, True, True, True, True]
        \<lparr>names = Map.empty(''prices.json'' \<mapsto> 0), content = (\<lambda>_. [])(0 := ''[]''),
         next_file = 1\<rparr>) =
   [Some ''[]'', Some ''[]'', Some ''[]'', Some ''[]'', Some ''[]'', Some ''{}''] \<and>
   map (\<lambda>s. read_file s ''prices.json.tmp'')
     (savePrices ''{}'' ''prices.json'' [True, True, True, True, True]
        \<lparr>names = Map.empty(''prices.json'' \<mapsto> 0), content = (\<lambda>_. [])(0 := ''[]''),
         next_file = 1\<rparr>) =
   [None, Some [], Some ''{'', Some ''{}'', Some ''{}'', None]"
  using savePrices_atomic[of "''prices.json''"
      "\<lparr>names = Map.empty(''prices.json'' \<mapsto> 0), content = (\<lambda>_. [])(0 := ''[]''), next_file = 1\<rparr>"
      "''{}''" "[True, True, True, True, True]"]
  by (simp add: files_eval target_apart_def)

text \<open>
  C8 as stated fails for the seen-set: a write by \<open>writeJSON\<close> that fails after the first
  character leaves the seen file holding \<open>{\<close>, a part of the document.
\<close>

theorem writeJSON_partial_file:
  "read_file (last (writeJSON ''pdf_seen_tracker.json'' empty_seen_doc [True, True, False]
       \<lparr>names = Map.empty(''pdf_seen_tracker.json'' \<mapsto> 0),
        content = (\<lambda>_. [])(0 := empty_seen_doc), next_file = 1\<rparr>))
     ''pdf_seen_tracker.json'' = Some ''{''"
  by (simp add: files_eval empty_seen_doc_def)

section \<open>Properties of the news item processing\<close>

lemma seen_item_no_op:
  assumes "fetchHTML w url = Inr (Some row)" and "pdfUrl row = Some u" and "u \<in> set seenSet"
  shows "processFirstItemIfToday alerts seenSet url w = (seenSet, [])"
  using assms by (simp add: processFirstItemIfToday_def split: option.splits)

lemma events_only_for_unseen:
  assumes "processFirstItemIfToday alerts seenSet url w = (seen', evs)"
    and "Download u ok \<in> set evs \<or> EmailSent rs u \<in> set evs \<or> EmailFailed rs u \<in> set evs \<or>
         WouldSend rs u \<in> set evs"
  shows "u \<notin> set seenSet"
  using assms
  by (auto simp: processFirstItemIfToday_def Let_def
      split: sum.splits option.splits if_splits)

lemma marked_seen_after:
  assumes "processFirstItemIfToday alerts seenSet url w = (seen', evs)"
    and "fetchHTML w url = Inr (Some row)" and "Download u True \<in> set evs"
    and "EmailSent rs u \<in> set evs \<or> recipients_of alerts (rowTicker row) = []"
  shows "u \<in> set seen' \<and> WriteSeen seen' (write_ok w) \<in> set evs"
  using assms
  by (auto simp: processFirstItemIfToday_def Let_def seen_add_def
      split: sum.splits option.splits if_splits)

text \<open>
  C9. When the first row of the page resolves to an address that is already in the
  seen-set, the call does nothing: no download, no mail, no write, and the seen-set is
  unchanged. Downloads and mails only ever concern an address that was not in the
  seen-set. Once the PDF was downloaded and the mail for it was sent, or there were no
  recipients for it, the address is in the seen-set and the seen-set with it was handed
  to \<open>writeJSON\<close>; so a second call on a page whose first row resolves to the same
  address does nothing.
\<close>

theorem processFirstItemIfToday_seen_once:
  "(\<forall>alerts seenSet url w row u.
      fetchHTML w url = Inr (Some row) \<and> pdfUrl row = Some u \<and> u \<in> set seenSet \<longrightarrow>
      processFirstItemIfToday alerts seenSet url w = (seenSet, [])) \<and>
   (\<forall>alerts seenSet url w seen' evs u ok rs.
      processFirstItemIfToday alerts seenSet url w = (seen', evs) \<and>
      (Download u ok \<in> set evs \<or> EmailSent rs u \<in> set evs \<or> EmailFailed rs u \<in> set evs \<or>
       WouldSend rs u \<in> set evs) \<longrightarrow>
      u \<notin> set seenSet) \<and>
   (\<forall>alerts seenSet url w seen' evs row u rs.
      processFirstItemIfToday alerts seenSet url w = (seen', evs) \<and>
      fetchHTML w url = Inr (Some row) \<and> Download u True \<in> set evs \<and>
      (EmailSent rs u \<in> set evs \<or> recipients_of alerts (rowTicker row) = []) \<longrightarrow>
      u \<in> set seen' \<and> WriteSeen seen' (write_ok w) \<in> set evs) \<and>
   (\<forall>alerts seenSet url w seen' evs row u rs alerts2 url2 w2 row2.
      processFirstItemIfToday alerts seenSet url w = (seen', evs) \<and>
      fetchHTML w url = Inr (Some row) \<and> Download u True \<in> set evs \<and>
      (EmailSent rs u \<in> set evs \<or> recipients_of alerts (rowTicker row) = []) \<and>
      fetchHTML w2 url2 = Inr (Some row2) \<and> pdfUrl row2 = Some u \<longrightarrow>
      processFirstItemIfToday alerts2 seen' url2 w2 = (seen', []))"
proof -
  have a: "\<forall>alerts seenSet url w row u.
      fetchHTML w url = Inr (Some row) \<and> pdfUrl row = Some u \<and> u \<in> set seenSet \<longrightarrow>
      processFirstItemIfToday alerts seenSet url w = (seenSet, [])"
    using seen_item_no_op by blast
  have b: "\<forall>alerts seenSet url w seen' evs u ok rs.
      processFirstItemIfToday alerts seenSet url w = (seen', evs) \<and>
      (Download u ok \<in> set evs \<or> EmailSent rs u \<in> set evs \<or> EmailFailed rs u \<in> set evs \<or>
       WouldSend rs u \<in> set evs) \<longrightarrow>
      u \<notin> set seenSet"
    using events_only_for_unseen by blast
  have c: "\<forall>alerts seenSet url w seen' evs row u rs.
      processFirstItemIfToday alerts seenSet url w = (seen', evs) \<and>
      fetchHTML w url = Inr (Some row) \<and> Download u True \<in> set evs \<and>
      (EmailSent rs u \<in> set evs \<or> recipients_of alerts (rowTicker row) = []) \<longrightarrow>
      u \<in> set seen' \<and> WriteSeen seen' (write_ok w) \<in> set evs"
    using marked_seen_after by blast
  have d: "\<forall>alerts seenSet url w seen' evs row u rs alerts2 url2 w2 row2.
      processFirstItemIfToday alerts seenSet url w = (seen', evs) \<and>
      fetchHTML w url = Inr (Some row) \<and> Download u True \<in> set evs \<and>
      (EmailSent rs u \<in> set evs \<or> recipients_of alerts (rowTicker row) = []) \<and>
      fetchHTML w2 url2 = Inr (Some row2) \<and> pdfUrl row2 = Some u \<longrightarrow>
      processFirstItemIfToday alerts2 seen' url2 w2 = (seen', [])"
  proof (intro allI impI)
    fix alerts alerts2 :: "string \<rightharpoonup> string list" and seenSet seen' rs :: "string list"
      and url url2 u :: string and w w2 :: news_world and evs :: "news_event list"
      and row row2 :: news_row
    assume h: "processFirstItemIfToday alerts seenSet url w = (seen', evs) \<and>
      fetchHTML w url = Inr (Some row) \<and> Download u True \<in> set evs \<and>
      (EmailSent rs u \<in> set evs \<or> recipients_of alerts (rowTicker row) = []) \<and>
      fetchHTML w2 url2 = Inr (Some row2) \<and> pdfUrl row2 = Some u"
    then have "u \<in> set seen'"
      using marked_seen_after by blast
    with h show "processFirstItemIfToday alerts2 seen' url2 w2 = (seen', [])"
      using seen_item_no_op by blast
  qed
  show ?thesis
    using a b c d by (intro conjI)
qed

lemma example_date: "parseDateFromTd (js_trim ''26.09.2025.'') = Some (26, 9, 2025)"
  by (simp add: js_trim_def is_space_def date_at_def date_with_def take_digits_def after_dot_def
      is_digit_def nat_of_digits_def digit_val_def)

theorem processFirstItemIfToday_seen_once_witness:
  "processFirstItemIfToday (Map.empty(''JESV'' \<mapsto> [''a@b.rs''])) []
     ''https://www.belex.rs/trgovanje/vesti/hartija/JESV'' example_world =
     ([''https://www.belex.rs/data/2025/09/00143497.pdf''],
      [Download ''https://www.belex.rs/data/2025/09/00143497.pdf'' True,
       EmailSent [''a@b.rs''] ''https://www.belex.rs/data/2025/09/00143497.pdf'',
       WriteSeen [''https://www.belex.rs/data/2025/09/00143497.pdf''] True]) \<and>
   processFirstItemIfToday (Map.empty(''JESV'' \<mapsto> [''a@b.rs'']))
     [''https://www.belex.rs/data/2025/09/00143497.pdf'']
     ''https://www.belex.rs/trgovanje/vesti/hartija/JESV'' example_world =
     ([''https://www.belex.rs/data/2025/09/00143497.pdf''], [])"
proof -
  have first: "processFirstItemIfToday (Map.empty(''JESV'' \<mapsto> [''a@b.rs''])) []
     ''https://www.belex.rs/trgovanje/vesti/hartija/JESV'' example_world =
     ([''https://www.belex.rs/data/2025/09/00143497.pdf''],
      [Download ''https://www.belex.rs/data/2025/09/00143497.pdf'' True,
       EmailSent [''a@b.rs''] ''https://www.belex.rs/data/2025/09/00143497.pdf'',
       WriteSeen [''https://www.belex.rs/data/2025/09/00143497.pdf''] True])"
    by (simp add: processFirstItemIfToday_def example_world_def example_row_def example_date
        recipients_of_def seen_add_def)
  have page: "fetchHTML example_world ''https://www.belex.rs/trgovanje/vesti/hartija/JESV'' =
      Inr (Some example_row)"
    "pdfUrl example_row = Some ''https://www.belex.rs/data/2025/09/00143497.pdf''"
    by (simp_all add: example_world_def example_row_def)
  have sent: "Download ''https://www.belex.rs/data/2025/09/00143497.pdf'' True \<in>
      set [Download ''https://www.belex.rs/data/2025/09/00143497.pdf'' True,
       EmailSent [''a@b.rs''] ''https://www.belex.rs/data/2025/09/00143497.pdf'',
       WriteSeen [''https://www.belex.rs/data/2025/09/00143497.pdf''] True]"
    "EmailSent [''a@b.rs''] ''https://www.belex.rs/data/2025/09/00143497.pdf'' \<in>
      set [Download ''https://www.belex.rs/data/2025/09/00143497.pdf'' True,
       EmailSent [''a@b.rs''] ''https://www.belex.rs/data/2025/09/00143497.pdf'',
       WriteSeen [''https://www.belex.rs/data/2025/09/00143497.pdf''] True]"
    by simp_all
  have second: "processFirstItemIfToday (Map.empty(''JESV'' \<mapsto> [''a@b.rs'']))
     [''https://www.belex.rs/data/2025/09/00143497.pdf'']
     ''https://www.belex.rs/trgovanje/vesti/hartija/JESV'' example_world =
     ([''https://www.belex.rs/data/2025/09/00143497.pdf''], [])"
    by (rule processFirstItemIfToday_seen_once
          [THEN conjunct2, THEN conjunct2, THEN conjunct2, rule_format,
           OF conjI [OF first conjI [OF page(1) conjI [OF sent(1)
             conjI [OF disjI1 [OF sent(2)] conjI [OF page(1) page(2)]]]]]])
  show ?thesis using first second by simp
qed

section \<open>Properties of the price locator\<close>

lemma try_elements_first:
  assumes "\<forall>c\<in>set pre. \<exists>x. c = Some x \<and> extractNumberFromString (js_trim x) = NaN"
    and "extractNumberFromString (js_trim t) \<noteq> NaN"
  shows "try_elements (pre @ Some t # post) = Some (extractNumberFromString (js_trim t))"
  using assms by (induction pre) (auto simp: Let_def)

lemma try_elements_Some_not_NaN: "try_elements els = Some n \<Longrightarrow> n \<noteq> NaN"
  by (induction els rule: try_elements.induct) (auto simp: Let_def split: if_splits)

lemma fetch_auto:
  "autodetectPriceFromPage d = Some n \<Longrightarrow> fetchPriceForTicker ticker d = Inr n"
  by (simp add: fetchPriceForTicker_def)

lemma autodetect_order:
  "try_query (xpathRow d) = Some n \<Longrightarrow> autodetectPriceFromPage d = Some n"
  "try_query (xpathRow d) = None \<Longrightarrow> try_query (xpathLabelNext d) = Some n \<Longrightarrow>
   autodetectPriceFromPage d = Some n"
  "try_query (xpathRow d) = None \<Longrightarrow> try_query (xpathLabelNext d) = None \<Longrightarrow>
   autodetectPriceFromPage d = try_query (xpathContainer d)"
  by (simp_all add: autodetectPriceFromPage_def split: option.splits)

lemma replace_comma_digit_start:
  assumes "s \<noteq> []" and "is_digit (hd s)"
  shows "replace_first (CHR '','') ''.'' s \<noteq> [] \<and> is_digit (hd (replace_first (CHR '','') ''.'' s))"
proof -
  from assms obtain c cs where s: "s = c # cs" and c: "is_digit c"
    by (cases s) auto
  from c have "c \<noteq> CHR '',''" by (auto simp: is_digit_def)
  with s c show ?thesis by simp
qed

lemma num_token_at_digit_start:
  assumes "num_token_at s = Some m"
  shows "m \<noteq> [] \<and> is_digit (hd m)"
proof -
  from assms have ne: "takeWhile is_digit s \<noteq> []"
    by (auto simp: num_token_at_def Let_def split: if_splits)
  then have "is_digit (hd (takeWhile is_digit s))"
    by (metis hd_in_set set_takeWhileD)
  moreover from assms obtain rest where "m = takeWhile is_digit s @ rest"
    by (auto simp: num_token_at_def Let_def split: if_splits list.splits)
  ultimately show ?thesis using ne by simp
qed

lemma near_at_token: "near_at s = Some m \<Longrightarrow> \<exists>s'. num_token_at s' = Some m"
  by (auto simp: near_at_def Let_def split: option.splits if_splits)

lemma near_match_token: "near_match s = Some m \<Longrightarrow> \<exists>s'. num_token_at s' = Some m"
  by (induction s) (auto split: option.splits dest: near_at_token)

lemma first_num_token_token: "first_num_token s = Some m \<Longrightarrow> \<exists>s'. num_token_at s' = Some m"
  by (induction s) (auto split: option.splits)

lemma token_parses:
  assumes "num_token_at s = Some m"
  shows "parseFloat (replace_first (CHR '','') ''.'' m) \<noteq> NaN"
  using num_token_at_digit_start[OF assms] replace_comma_digit_start parseFloat_digit_start
  by blast

lemma fetch_near:
  assumes "autodetectPriceFromPage d = None" and "near_match (body d) = Some m"
  shows "fetchPriceForTicker ticker d = Inr (parseFloat (replace_first (CHR '','') ''.'' m))"
proof -
  have "parseFloat (replace_first (CHR '','') ''.'' m) \<noteq> NaN"
    using near_match_token[OF assms(2)] token_parses by blast
  then show ?thesis using assms by (simp add: fetchPriceForTicker_def)
qed

lemma fetch_token:
  assumes "autodetectPriceFromPage d = None" and "near_match (body d) = None"
    and "first_num_token (body d) = Some m"
  shows "fetchPriceForTicker ticker d = Inr (parseFloat (replace_first (CHR '','') ''.'' m))"
  using assms by (simp add: fetchPriceForTicker_def)

lemma fetch_fail:
  assumes "autodetectPriceFromPage d = None" and "near_match (body d) = None"
    and "first_num_token (body d) = None"
  shows "fetchPriceForTicker ticker d =
     Inl (''Could not extract price for '' @ ticker @ '' (no selector matched and fallback failed)'')"
  using assms by (simp add: fetchPriceForTicker_def)


lemma parse_812_5: "parseFloat ''812.5'' = Num (1625 / 2)"
proof -
  have d: "parseFloat ''812.5'' = to_double (1625 / 2)"
    by (simp add: parseFloat_def is_digit_def nat_of_digits_def digit_val_def)
  have b: "binade (1625 / 2) = 9"
    by (simp add: binade_def halvings.simps)
  have r: "round_half_even (1625 / 2 / pow2 (9 - 52)) = 7146825580544000"
    by (rule round_half_even_down) (simp_all add: pow2_def)
  have "to_double (1625 / 2) = Num (of_int 7146825580544000 * pow2 (9 - 52))"
    by (rule to_double_pos[OF _ b _ r]) (simp_all add: pow2_def)
  then show ?thesis using d by (simp add: pow2_def)
qed

lemma example_container_text:
  "extractNumberFromString (js_trim ''Price: 812,5 RSD'') = Num (1625 / 2)"
proof -
  have t: "js_trim ''Price: 812,5 RSD'' = ''Price: 812,5 RSD''"
    by (simp add: extract_eval)
  have c: "replace_first (CHR '','') ''.'' (collapse_ws (js_trim ''Price: 812,5 RSD'')) =
      ''Price: 812.5 RSD''"
    by (simp add: extract_eval)
  have m: "match_number ''Price: 812.5 RSD'' = Some ''812.5''"
    by (simp add: extract_eval)
  show ?thesis
    unfolding t extractNumberFromString_def Let_def c m by (simp add: extract_eval parse_812_5)
qed

lemma example_label_text: "extractNumberFromString (js_trim ''n/a'') = NaN"
  by (rule extract_no_digit) (simp add: js_trim_def is_space_def is_digit_def)

text \<open>
  C4 (as amended). The five strategies are tried in their fixed order and the first
  success is returned without a look at a later one. Within each of the first three, the
  candidates are tested in order with \<open>extractNumberFromString\<close>. The matches of the
  fourth and the fifth are converted with \<open>parseFloat\<close> after a comma is replaced by a
  dot, which always gives a number. When all five fail, \<open>autodetectPriceFromPage\<close> has
  returned \<open>null\<close> and \<open>fetchPriceForTicker\<close> throws its error.
\<close>

theorem fetchPriceForTicker_locator:
  "(\<forall>pre t post.
      (\<forall>c\<in>set pre. \<exists>x. c = Some x \<and> extractNumberFromString (js_trim x) = NaN) \<and>
      extractNumberFromString (js_trim t) \<noteq> NaN \<longrightarrow>
      try_elements (pre @ Some t # post) = Some (extractNumberFromString (js_trim t))) \<and>
   (\<forall>ticker d n. try_query (xpathRow d) = Some n \<longrightarrow> fetchPriceForTicker ticker d = Inr n) \<and>
   (\<forall>ticker d n. try_query (xpathRow d) = None \<and> try_query (xpathLabelNext d) = Some n \<longrightarrow>
      fetchPriceForTicker ticker d = Inr n) \<and>
   (\<forall>ticker d n. try_query (xpathRow d) = None \<and> try_query (xpathLabelNext d) = None \<and>
      try_query (xpathContainer d) = Some n \<longrightarrow>
      fetchPriceForTicker ticker d = Inr n) \<and>
   (\<forall>ticker d m. autodetectPriceFromPage d = None \<and> near_match (body d) = Some m \<longrightarrow>
      fetchPriceForTicker ticker d = Inr (parseFloat (replace_first (CHR '','') ''.'' m)) \<and>
      parseFloat (replace_first (CHR '','') ''.'' m) \<noteq> NaN) \<and>
   (\<forall>ticker d m. autodetectPriceFromPage d = None \<and> near_match (body d) = None \<and>
      first_num_token (body d) = Some m \<longrightarrow>
      fetchPriceForTicker ticker d = Inr (parseFloat (replace_first (CHR '','') ''.'' m)) \<and>
      parseFloat (replace_first (CHR '','') ''.'' m) \<noteq> NaN) \<and>
   (\<forall>ticker d. try_query (xpathRow d) = None \<and> try_query (xpathLabelNext d) = None \<and>
      try_query (xpathContainer d) = None \<and> near_match (body d) = None \<and>
      first_num_token (body d) = None \<longrightarrow>
      autodetectPriceFromPage d = None \<and>
      fetchPriceForTicker ticker d =
        Inl (''Could not extract price for '' @ ticker @
             '' (no selector matched and fallback failed)''))"
proof -
  have a: "\<forall>pre t post.
      (\<forall>c\<in>set pre. \<exists>x. c = Some x \<and> extractNumberFromString (js_trim x) = NaN) \<and>
      extractNumberFromString (js_trim t) \<noteq> NaN \<longrightarrow>
      try_elements (pre @ Some t # post) = Some (extractNumberFromString (js_trim t))"
    using try_elements_first by blast
  have b: "\<forall>ticker d n. try_query (xpathRow d) = Some n \<longrightarrow> fetchPriceForTicker ticker d = Inr n"
    using autodetect_order(1) fetch_auto by blast
  have c: "\<forall>ticker d n. try_query (xpathRow d) = None \<and> try_query (xpathLabelNext d) = Some n \<longrightarrow>
      fetchPriceForTicker ticker d = Inr n"
    using autodetect_order(2) fetch_auto by blast
  have d: "\<forall>ticker d n. try_query (xpathRow d) = None \<and> try_query (xpathLabelNext d) = None \<and>
      try_query (xpathContainer d) = Some n \<longrightarrow>
      fetchPriceForTicker ticker d = Inr n"
    using autodetect_order(3) fetch_auto by metis
  have e: "\<forall>ticker d m. autodetectPriceFromPage d = None \<and> near_match (body d) = Some m \<longrightarrow>
      fetchPriceForTicker ticker d = Inr (parseFloat (replace_first (CHR '','') ''.'' m)) \<and>
      parseFloat (replace_first (CHR '','') ''.'' m) \<noteq> NaN"
    using fetch_near near_match_token token_parses by blast
  have f: "\<forall>ticker d m. autodetectPriceFromPage d = None \<and> near_match (body d) = None \<and>
      first_num_token (body d) = Some m \<longrightarrow>
      fetchPriceForTicker ticker d = Inr (parseFloat (replace_first (CHR '','') ''.'' m)) \<and>
      parseFloat (replace_first (CHR '','') ''.'' m) \<noteq> NaN"
    using fetch_token first_num_token_token token_parses by blast
  have g: "\<forall>ticker d. try_query (xpathRow d) = None \<and> try_query (xpathLabelNext d) = None \<and>
      try_query (xpathContainer d) = None \<and> near_match (body d) = None \<and>
      first_num_token (body d) = None \<longrightarrow>
      autodetectPriceFromPage d = None \<and>
      fetchPriceForTicker ticker d =
        Inl (''Could not extract price for '' @ ticker @
             '' (no selector matched and fallback failed)'')"
    using autodetect_order(3) fetch_fail by metis
  show ?thesis
    using a b c d e f g by (intro conjI)
qed

theorem fetchPriceForTicker_locator_witness:
  "fetchPriceForTicker ''NIIS''
     \<lparr>xpathRow = Some [Some ''n/a''], xpathLabelNext = Some [],
      xpathContainer = Some [Some ''Price: 812,5 RSD''], body = ''Price: 812,5 RSD''\<rparr> =
   Inr (Num (1625 / 2))"
proof -
  have r: "try_query (Some [Some ''n/a'']) = None"
    by (simp add: try_query_def Let_def example_label_text)
  have l: "try_query (Some []) = None"
    by (simp add: try_query_def)
  have k: "try_query (Some [Some ''Price: 812,5 RSD'']) = Some (Num (1625 / 2))"
    by (simp add: try_query_def Let_def example_container_text)
  show ?thesis
    using fetchPriceForTicker_locator r l k by simp
qed

text \<open>
  C4 as stated fails: on a page whose only number is the bare token \<open>5.002\<close>, the fifth
  strategy returns 5.002 (the binary64 number nearest to it, \<open>5631751334026805 / 2^50\<close>),
  where the numeric extraction engine reads the same candidate as 5002.
\<close>

theorem fetchPriceForTicker_bare_token:
  "fetchPriceForTicker ''NIIS''
     \<lparr>xpathRow = Some [], xpathLabelNext = Some [], xpathContainer = Some [],
      body = ''Last 5.002 RSD''\<rparr> =
     Inr (Num (5631751334026805 / 1125899906842624)) \<and>
   locate_spec
     \<lparr>xpathRow = Some [], xpathLabelNext = Some [], xpathContainer = Some [],
      body = ''Last 5.002 RSD''\<rparr> = Some (Num 5002)"
proof -
  have a: "autodetectPriceFromPage
     \<lparr>xpathRow = Some [], xpathLabelNext = Some [], xpathContainer = Some [],
      body = ''Last 5.002 RSD''\<rparr> = None"
    by (simp add: autodetectPriceFromPage_def try_query_def)
  have n: "near_match ''Last 5.002 RSD'' = None"
    by (simp add: near_at_def starts_with_ci_def ascii_lower_def)
  have t: "first_num_token ''Last 5.002 RSD'' = Some ''5.002''"
    by (simp add: num_token_at_def is_digit_def)
  have e: "extractNumberFromString ''5.002'' = Num 5002"
  proof -
    have c: "replace_first (CHR '','') ''.'' (collapse_ws (js_trim ''5.002'')) = ''5.002''"
      by (simp add: extract_eval)
    have m: "match_number ''5.002'' = Some ''5.002''"
      by (simp add: extract_eval)
    show ?thesis
      unfolding extractNumberFromString_def Let_def c m by (simp add: extract_eval parse_5002)
  qed
  show ?thesis
    by (simp add: fetchPriceForTicker_def locate_spec_def a n t parse_5_002 e
        del: near_match.simps first_num_token.simps)
qed

end
